theory Spec2Isabelle
  imports Main "HOL-Library.Word"
begin

unbundle bit_operations_syntax

section \<open>Machine types\<close>

type_synonym byte = "8 word"
type_synonym u16 = "16 word"
type_synonym u32 = "32 word"

section \<open>Hostname decomposition\<close>

text \<open>
  \<^verbatim>\<open>std::string::find_first_of(".")\<close>: the index of the first character of the string that
  is the given one, \<^verbatim>\<open>npos\<close> (here \<open>None\<close>) when there is none.
\<close>

fun find_first_of :: "string \<Rightarrow> char \<Rightarrow> nat option" where
  "find_first_of [] c = None"
| "find_first_of (x # xs) c =
     (if x = c then Some 0
      else (case find_first_of xs c of None \<Rightarrow> None | Some i \<Rightarrow> Some (Suc i)))"

text \<open>
  \<^verbatim>\<open>fqdn.substr(pos, n)\<close> and \<^verbatim>\<open>fqdn.substr(pos)\<close>. The library call throws
  \<^verbatim>\<open>out_of_range\<close> when \<open>pos\<close> is beyond the end of the string, which is \<open>None\<close> here.
\<close>

definition substr :: "string \<Rightarrow> nat \<Rightarrow> nat \<Rightarrow> string option" where
  "substr s pos n = (if length s < pos then None else Some (take n (drop pos s)))"

definition substr_from :: "string \<Rightarrow> nat \<Rightarrow> string option" where
  "substr_from s pos = (if length s < pos then None else Some (drop pos s))"

definition HostnameFromFQDN :: "string \<Rightarrow> string option" where
  "HostnameFromFQDN fqdn =
     (case find_first_of fqdn (CHR ''.'') of
        None \<Rightarrow> Some fqdn
      | Some first_dot \<Rightarrow> substr fqdn 0 first_dot)"

definition DomainNameFromFQDN :: "string \<Rightarrow> string option" where
  "DomainNameFromFQDN fqdn =
     (case find_first_of fqdn (CHR ''.'') of
        None \<Rightarrow> Some []
      | Some first_dot \<Rightarrow> substr_from fqdn (first_dot + 1))"

section \<open>Byte order\<close>

text \<open>
  \<^verbatim>\<open>IsBigEndian()\<close> compares the build's \<^verbatim>\<open>BYTE_ORDER\<close> with big endian. It is a
  constant of the platform, so every function that depends on it takes it as the
  parameter \<open>be\<close>.

  A C \<^verbatim>\<open>int\<close> is 32 bits wide. An \<^verbatim>\<open>int16_t\<close> operand of \<^verbatim>\<open>&\<close>, \<^verbatim>\<open><<\<close>, \<^verbatim>\<open>>>\<close> or
  \<^verbatim>\<open>|\<close> is promoted to \<^verbatim>\<open>int\<close> by sign extension (\<open>scast\<close>), a \<^verbatim>\<open>uint16_t\<close> operand by
  zero extension (\<open>ucast\<close>); \<^verbatim>\<open>>>\<close> on an \<^verbatim>\<open>int\<close> is the arithmetic shift; the value
  returned is cut to the 16 bits of the return type.
\<close>

text \<open>
  The C library's \<^verbatim>\<open>htons\<close>, \<^verbatim>\<open>ntohs\<close>, \<^verbatim>\<open>htonl\<close> and \<^verbatim>\<open>ntohl\<close>: the identity on a
  big-endian host, the reversal of the bytes on a little-endian one.
\<close>

definition bswap16 :: "u16 \<Rightarrow> u16" where
  "bswap16 v = push_bit 8 (v AND 0xff) OR drop_bit 8 v"

definition bswap32 :: "u32 \<Rightarrow> u32" where
  "bswap32 v = push_bit 24 (v AND 0xff) OR push_bit 8 (v AND 0xff00)
      OR drop_bit 8 (v AND 0xff0000) OR drop_bit 24 (v AND 0xff000000)"

definition htons :: "bool \<Rightarrow> u16 \<Rightarrow> u16" where
  "htons be v = (if be then v else bswap16 v)"

definition ntohs :: "bool \<Rightarrow> u16 \<Rightarrow> u16" where
  "ntohs be v = (if be then v else bswap16 v)"

definition htonl :: "bool \<Rightarrow> u32 \<Rightarrow> u32" where
  "htonl be v = (if be then v else bswap32 v)"

definition ntohl :: "bool \<Rightarrow> u32 \<Rightarrow> u32" where
  "ntohl be v = (if be then v else bswap32 v)"

text \<open>
  The overloads of the source, one definition each. An \<^verbatim>\<open>int16_t\<close> and a \<^verbatim>\<open>uint16_t\<close>
  are both a \<open>16 word\<close>; passing an \<^verbatim>\<open>int16_t\<close> to \<^verbatim>\<open>ntohs\<close> and returning its
  \<^verbatim>\<open>uint16_t\<close> result as \<^verbatim>\<open>int16_t\<close> keeps the 16 bits.
\<close>

definition NetworkToHost_u16 :: "bool \<Rightarrow> u16 \<Rightarrow> u16" where
  "NetworkToHost_u16 be v = ntohs be v"

definition NetworkToHost_u32 :: "bool \<Rightarrow> u32 \<Rightarrow> u32" where
  "NetworkToHost_u32 be v = ntohl be v"

definition NetworkToHost_i16 :: "bool \<Rightarrow> u16 \<Rightarrow> u16" where
  "NetworkToHost_i16 be v = ntohs be v"

definition NetworkToHost_i32 :: "bool \<Rightarrow> u32 \<Rightarrow> u32" where
  "NetworkToHost_i32 be v = ntohl be v"

definition HostToNetwork_u16 :: "bool \<Rightarrow> u16 \<Rightarrow> u16" where
  "HostToNetwork_u16 be v = htons be v"

definition HostToNetwork_i16 :: "bool \<Rightarrow> u16 \<Rightarrow> u16" where
  "HostToNetwork_i16 be v = htons be v"

definition HostToNetwork_u32 :: "bool \<Rightarrow> u32 \<Rightarrow> u32" where
  "HostToNetwork_u32 be v = htonl be v"

definition HostToNetwork_i32 :: "bool \<Rightarrow> u32 \<Rightarrow> u32" where
  "HostToNetwork_i32 be v = htonl be v"

text \<open>\<^verbatim>\<open>((value & 0xff) << 8) | (value >> 8)\<close> on the promoted operand, cut to 16 bits.\<close>

definition swap_expr :: "u32 \<Rightarrow> u16" where
  "swap_expr value = ucast (push_bit 8 (value AND 0xff) OR signed_drop_bit 8 value)"

definition HostToLittleEndian_u16 :: "bool \<Rightarrow> u16 \<Rightarrow> u16" where
  "HostToLittleEndian_u16 be v = (if be then swap_expr (ucast v) else v)"

definition HostToLittleEndian_i16 :: "bool \<Rightarrow> u16 \<Rightarrow> u16" where
  "HostToLittleEndian_i16 be v = (if be then swap_expr (scast v) else v)"

definition ByteSwap :: "u32 \<Rightarrow> u32" where
  "ByteSwap v = push_bit 24 (v AND 0x000000ff) OR push_bit 8 (v AND 0x0000ff00)
      OR drop_bit 8 (v AND 0x00ff0000) OR drop_bit 24 (v AND 0xff000000)"

definition HostToLittleEndian_u32 :: "bool \<Rightarrow> u32 \<Rightarrow> u32" where
  "HostToLittleEndian_u32 be v = (if be then ByteSwap v else v)"

definition HostToLittleEndian_i32 :: "bool \<Rightarrow> u32 \<Rightarrow> u32" where
  "HostToLittleEndian_i32 be v = (if be then ByteSwap v else v)"

definition LittleEndianToHost_u16 :: "bool \<Rightarrow> u16 \<Rightarrow> u16" where
  "LittleEndianToHost_u16 be v = (if be then swap_expr (ucast v) else v)"

definition LittleEndianToHost_i16 :: "bool \<Rightarrow> u16 \<Rightarrow> u16" where
  "LittleEndianToHost_i16 be v = (if be then swap_expr (scast v) else v)"

definition LittleEndianToHost_u32 :: "bool \<Rightarrow> u32 \<Rightarrow> u32" where
  "LittleEndianToHost_u32 be v = (if be then ByteSwap v else v)"

definition LittleEndianToHost_i32 :: "bool \<Rightarrow> u32 \<Rightarrow> u32" where
  "LittleEndianToHost_i32 be v = (if be then ByteSwap v else v)"


section \<open>The message buffer\<close>

text \<open>
  \<^verbatim>\<open>char msg[BUFSIZE]\<close> of \<open>DefaultRoute\<close> is a store from byte offsets to bytes. A pointer
  into \<open>msg\<close> is the offset it points at. The offsets below \<open>BUFSIZE\<close> are the array;
  a read at an offset outside it is undefined in C++, and the functions below check
  every offset they read and stop with the fault \<open>OutsideBuffer\<close> there.
\<close>

type_synonym memory = "nat \<Rightarrow> byte"

definition BUFSIZE :: nat where
  "BUFSIZE = 8192"

datatype fault = OutsideBuffer | NeverReturns

text \<open>\<^verbatim>\<open>memset(msg, 0, BUFSIZE)\<close>\<close>

definition memset0 :: memory where
  "memset0 = (\<lambda>i. 0)"

text \<open>Writing the bytes \<open>bs\<close> at offset \<open>p\<close> and after.\<close>

definition store :: "memory \<Rightarrow> nat \<Rightarrow> byte list \<Rightarrow> memory" where
  "store mem p bs = (\<lambda>i. if p \<le> i \<and> i < p + length bs then bs ! (i - p) else mem i)"

text \<open>
  Reading a 16-bit and a 32-bit field in the host's byte order: the fields of the
  netlink structures are plain \<^verbatim>\<open>__u16\<close> and \<^verbatim>\<open>__u32\<close> members read through a cast
  pointer.
\<close>

definition load16 :: "bool \<Rightarrow> memory \<Rightarrow> nat \<Rightarrow> u16" where
  "load16 be mem p =
     (if be then push_bit 8 (ucast (mem p)) OR ucast (mem (p + 1))
      else ucast (mem p) OR push_bit 8 (ucast (mem (p + 1))))"

definition load32 :: "bool \<Rightarrow> memory \<Rightarrow> nat \<Rightarrow> u32" where
  "load32 be mem p =
     (if be then push_bit 24 (ucast (mem p)) OR push_bit 16 (ucast (mem (p + 1)))
                 OR push_bit 8 (ucast (mem (p + 2))) OR ucast (mem (p + 3))
      else ucast (mem p) OR push_bit 8 (ucast (mem (p + 1)))
           OR push_bit 16 (ucast (mem (p + 2))) OR push_bit 24 (ucast (mem (p + 3))))"

definition bytes16 :: "bool \<Rightarrow> u16 \<Rightarrow> byte list" where
  "bytes16 be v =
     (if be then [ucast (drop_bit 8 v), ucast v] else [ucast v, ucast (drop_bit 8 v)])"

definition bytes32 :: "bool \<Rightarrow> u32 \<Rightarrow> byte list" where
  "bytes32 be v =
     (if be then [ucast (drop_bit 24 v), ucast (drop_bit 16 v), ucast (drop_bit 8 v), ucast v]
      else [ucast v, ucast (drop_bit 8 v), ucast (drop_bit 16 v), ucast (drop_bit 24 v)])"

section \<open>The netlink declarations the source includes\<close>

text \<open>
  The structures, constants and macros of \<^verbatim>\<open><linux/netlink.h>\<close>,
  \<^verbatim>\<open><linux/rtnetlink.h>\<close> and \<^verbatim>\<open><sys/socket.h>\<close>. They belong to the platform, not to
  the repository, and are written out here as the kernel headers define them.

  \<^verbatim>\<open>struct nlmsghdr { __u32 nlmsg_len; __u16 nlmsg_type; __u16 nlmsg_flags;
  __u32 nlmsg_seq; __u32 nlmsg_pid; }\<close>, 16 bytes.
\<close>

definition nlmsg_len :: "bool \<Rightarrow> memory \<Rightarrow> nat \<Rightarrow> u32" where
  "nlmsg_len be mem nlh = load32 be mem nlh"

definition nlmsg_type :: "bool \<Rightarrow> memory \<Rightarrow> nat \<Rightarrow> u16" where
  "nlmsg_type be mem nlh = load16 be mem (nlh + 4)"

definition nlmsg_flags :: "bool \<Rightarrow> memory \<Rightarrow> nat \<Rightarrow> u16" where
  "nlmsg_flags be mem nlh = load16 be mem (nlh + 6)"

definition nlmsg_seq :: "bool \<Rightarrow> memory \<Rightarrow> nat \<Rightarrow> u32" where
  "nlmsg_seq be mem nlh = load32 be mem (nlh + 8)"

definition nlmsg_pid :: "bool \<Rightarrow> memory \<Rightarrow> nat \<Rightarrow> u32" where
  "nlmsg_pid be mem nlh = load32 be mem (nlh + 12)"

text \<open>
  \<^verbatim>\<open>struct rtmsg\<close>, 12 bytes: \<^verbatim>\<open>unsigned char rtm_family\<close> at offset 0 and
  \<^verbatim>\<open>unsigned char rtm_table\<close> at offset 4 are the two members the source reads.
\<close>

definition rtm_family :: "memory \<Rightarrow> nat \<Rightarrow> byte" where
  "rtm_family mem rt_msg = mem rt_msg"

definition rtm_table :: "memory \<Rightarrow> nat \<Rightarrow> byte" where
  "rtm_table mem rt_msg = mem (rt_msg + 4)"

text \<open>\<^verbatim>\<open>struct rtattr { unsigned short rta_len; unsigned short rta_type; }\<close>, 4 bytes.\<close>

definition rta_len :: "bool \<Rightarrow> memory \<Rightarrow> nat \<Rightarrow> u16" where
  "rta_len be mem rta = load16 be mem rta"

definition rta_type :: "bool \<Rightarrow> memory \<Rightarrow> nat \<Rightarrow> u16" where
  "rta_type be mem rta = load16 be mem (rta + 2)"

definition NLMSG_ERROR :: u16 where "NLMSG_ERROR = 2"
definition NLMSG_DONE :: u16 where "NLMSG_DONE = 3"
definition NLM_F_REQUEST :: u16 where "NLM_F_REQUEST = 1"
definition NLM_F_MULTI :: u16 where "NLM_F_MULTI = 2"
definition NLM_F_DUMP :: u16 where "NLM_F_DUMP = 0x100 OR 0x200"
definition RTM_GETROUTE :: u16 where "RTM_GETROUTE = 26"
definition AF_INET :: byte where "AF_INET = 2"
definition RT_TABLE_MAIN :: byte where "RT_TABLE_MAIN = 254"
definition RTA_DST :: u16 where "RTA_DST = 1"
definition RTA_OIF :: u16 where "RTA_OIF = 4"
definition RTA_GATEWAY :: u16 where "RTA_GATEWAY = 5"

text \<open>
  \<^verbatim>\<open>NLMSG_ALIGN(len) = ((len) + NLMSG_ALIGNTO - 1) & ~(NLMSG_ALIGNTO - 1)\<close> with
  \<^verbatim>\<open>NLMSG_ALIGNTO = 4U\<close>: arithmetic on \<^verbatim>\<open>unsigned int\<close>, which wraps at 32 bits.
\<close>

definition NLMSG_ALIGN :: "u32 \<Rightarrow> u32" where
  "NLMSG_ALIGN len = (len + 3) AND NOT 3"

text \<open>\<^verbatim>\<open>NLMSG_LENGTH(len) = (len) + NLMSG_HDRLEN\<close>, where \<^verbatim>\<open>NLMSG_HDRLEN\<close> is 16.\<close>

definition NLMSG_LENGTH :: "u32 \<Rightarrow> u32" where
  "NLMSG_LENGTH len = len + NLMSG_ALIGN 16"

definition NLMSG_SPACE :: "u32 \<Rightarrow> u32" where
  "NLMSG_SPACE len = NLMSG_ALIGN (NLMSG_LENGTH len)"

text \<open>\<^verbatim>\<open>NLMSG_DATA(nlh) = (char *) (nlh) + NLMSG_LENGTH(0)\<close>\<close>

definition NLMSG_DATA :: "nat \<Rightarrow> nat" where
  "NLMSG_DATA nlh = nlh + unat (NLMSG_LENGTH 0)"

text \<open>
  \<^verbatim>\<open>NLMSG_OK(nlh, len) = ((len) >= (int) sizeof(struct nlmsghdr) &&
  (nlh)->nlmsg_len >= sizeof(struct nlmsghdr) && (nlh)->nlmsg_len <= (len))\<close>.
  Both call sites pass \<^verbatim>\<open>(unsigned int) len\<close>, so the three comparisons are unsigned.
\<close>

definition NLMSG_OK :: "bool \<Rightarrow> memory \<Rightarrow> nat \<Rightarrow> u32 \<Rightarrow> bool" where
  "NLMSG_OK be mem nlh len \<longleftrightarrow>
     16 \<le> unat len \<and> 16 \<le> unat (nlmsg_len be mem nlh) \<and> nlmsg_len be mem nlh \<le> len"

text \<open>\<^verbatim>\<open>RTM_PAYLOAD(n) = NLMSG_PAYLOAD(n, sizeof(struct rtmsg)) = (n)->nlmsg_len - NLMSG_SPACE(12)\<close>,
  stored in an \<^verbatim>\<open>int\<close>: the difference modulo \<open>2 ^ 32\<close>, read as a signed value.\<close>

definition RTM_PAYLOAD :: "bool \<Rightarrow> memory \<Rightarrow> nat \<Rightarrow> u32" where
  "RTM_PAYLOAD be mem nlh = nlmsg_len be mem nlh - NLMSG_SPACE 12"

text \<open>\<^verbatim>\<open>RTM_RTA(r) = (char *) (r) + NLMSG_ALIGN(sizeof(struct rtmsg))\<close>\<close>

definition RTM_RTA :: "nat \<Rightarrow> nat" where
  "RTM_RTA rt_msg = rt_msg + unat (NLMSG_ALIGN 12)"

text \<open>
  \<^verbatim>\<open>RTA_ALIGN(len) = ((len) + RTA_ALIGNTO - 1) & ~(RTA_ALIGNTO - 1)\<close> with
  \<^verbatim>\<open>RTA_ALIGNTO = 4U\<close>; \<^verbatim>\<open>RTA_DATA(rta) = (char *) (rta) + RTA_LENGTH(0)\<close>, which is
  4 bytes after the attribute's start.
\<close>

definition RTA_ALIGN :: "u32 \<Rightarrow> u32" where
  "RTA_ALIGN len = (len + 3) AND NOT 3"

definition RTA_DATA :: "nat \<Rightarrow> nat" where
  "RTA_DATA rta = rta + unat (RTA_ALIGN 4)"

text \<open>
  \<^verbatim>\<open>RTA_OK(rta, len) = ((len) >= (int) sizeof(struct rtattr) &&
  (rta)->rta_len >= sizeof(struct rtattr) && (rta)->rta_len <= (len))\<close>. Here \<open>len\<close> is the
  \<^verbatim>\<open>int rt_len\<close>: the first and the third comparison are signed.
\<close>

definition RTA_OK :: "bool \<Rightarrow> memory \<Rightarrow> nat \<Rightarrow> u32 \<Rightarrow> bool" where
  "RTA_OK be mem rta len \<longleftrightarrow>
     4 \<le> sint len \<and> 4 \<le> unat (rta_len be mem rta) \<and> uint (rta_len be mem rta) \<le> sint len"

section \<open>Alignment arithmetic\<close>

text \<open>What the alignment macros compute, as needed to see that the attribute loop ends.\<close>

lemma three_mask: "(3 :: u32) = mask 2"
  by (simp add: mask_eq_exp_minus_1)

lemma and_not3: "(w :: u32) AND NOT 3 = push_bit 2 (drop_bit 2 w)"
proof (rule bit_word_eqI)
  fix n assume "n < LENGTH(32)"
  show "bit (w AND NOT 3) n = bit (push_bit 2 (drop_bit 2 w)) n"
  proof (cases "2 \<le> n")
    case True
    then have "2 + (n - 2) = n" by simp
    with True show ?thesis unfolding three_mask by (auto simp add: bit_simps)
  next
    case False
    then show ?thesis unfolding three_mask by (simp add: bit_simps)
  qed
qed

lemma unat_and_not3: "unat ((w :: u32) AND NOT 3) = unat w div 4 * 4"
proof -
  have "unat (push_bit 2 (drop_bit 2 w)) = take_bit 32 (push_bit 2 (drop_bit 2 (unat w)))"
    by (simp add: unsigned_push_bit_eq unat_drop_bit_eq)
  also have "\<dots> = (unat w div 4 * 4) mod 2 ^ 32"
    by (simp add: push_bit_eq_mult drop_bit_eq_div take_bit_eq_mod)
  also have "\<dots> = unat w div 4 * 4"
  proof -
    have "unat w < 2 ^ 32" using unsigned_less [of w] by simp
    then have "unat w div 4 * 4 < 2 ^ 32" by linarith
    then show ?thesis by simp
  qed
  finally show ?thesis by (simp only: and_not3)
qed

lemma unat_ucast_16_32: "unat (ucast (r :: u16) :: u32) = unat r"
  by (simp add: unsigned_ucast_eq take_bit_nat_eq_self unsigned_less [of r, simplified] 
       order_less_trans [OF unsigned_less [of r]])

lemma unat_RTA_ALIGN_ucast:
  "unat (RTA_ALIGN (ucast (r :: u16))) = (unat r + 3) div 4 * 4"
proof -
  have r: "unat r < 2 ^ 16" using unsigned_less [of r] by simp
  have "unat (ucast r + 3 :: u32) = unat r + 3"
    using r by (simp add: unat_word_ariths unat_ucast_16_32)
  moreover have "unat (RTA_ALIGN (ucast r)) = unat (ucast r + 3 :: u32) div 4 * 4"
    unfolding RTA_ALIGN_def by (rule unat_and_not3)
  ultimately show ?thesis by simp
qed

lemma RTA_ALIGN_pos: "4 \<le> unat (r :: u16) \<Longrightarrow> 0 < unat (RTA_ALIGN (ucast r))"
  by (simp add: unat_RTA_ALIGN_ucast)

section \<open>ReadNetlinkSocket\<close>

text \<open>
  What the kernel does at each \<^verbatim>\<open>recv\<close> is the input of the model: a list with one
  event per call, \<open>RecvFails\<close> for a call that returns \<open>-1\<close> and \<open>RecvData d\<close> for a
  datagram \<open>d\<close>. \<^verbatim>\<open>recv(sd, buf, n, 0)\<close> on the datagram socket copies the first \<open>n\<close> bytes
  of the datagram to \<open>buf\<close> and returns how many it copied. When the list is used up
  the next \<^verbatim>\<open>recv\<close> blocks for ever and the function does not return: the result is
  \<open>None\<close>.

  \<open>buf\<close> is the offset in \<open>msg\<close> the pointer \<^verbatim>\<open>buf\<close> points at. \<^verbatim>\<open>bufsize\<close>, \<^verbatim>\<open>seq\<close>,
  \<^verbatim>\<open>pid\<close>, \<^verbatim>\<open>readlen\<close> (all \<^verbatim>\<open>int\<close>) and \<^verbatim>\<open>msglen\<close> (\<^verbatim>\<open>unsigned int\<close>) are 32-bit words;
  the \<^verbatim>\<open>int\<close> returned is the word read as a signed value, so \<open>-1\<close> is the failure.
\<close>

datatype recv_event = RecvFails | RecvData "byte list"

fun ReadNetlinkSocket_loop ::
  "bool \<Rightarrow> recv_event list \<Rightarrow> memory \<Rightarrow> nat \<Rightarrow> u32 \<Rightarrow> u32 \<Rightarrow> u32 \<Rightarrow> u32 \<Rightarrow> (memory \<times> u32) option"
where
  "ReadNetlinkSocket_loop be [] mem buf bufsize seq pid msglen = None"
| "ReadNetlinkSocket_loop be (RecvFails # evs) mem buf bufsize seq pid msglen = Some (mem, - 1)"
| "ReadNetlinkSocket_loop be (RecvData d # evs) mem buf bufsize seq pid msglen =
     (let received = take (unat (bufsize - msglen)) d;
          readlen = (of_nat (length received) :: u32);
          mem' = store mem buf received;
          nl_hdr = buf
      in if sint readlen < 0 then Some (mem', - 1)
         else if \<not> NLMSG_OK be mem' nl_hdr readlen then Some (mem', - 1)
         else if nlmsg_type be mem' nl_hdr = NLMSG_ERROR then Some (mem', - 1)
         else if nlmsg_type be mem' nl_hdr = NLMSG_DONE then Some (mem', msglen)
         else if nlmsg_flags be mem' nl_hdr AND NLM_F_MULTI = 0
           then Some (mem', msglen + readlen)
         else if nlmsg_seq be mem' nl_hdr \<noteq> seq \<or> nlmsg_pid be mem' nl_hdr \<noteq> pid
           then ReadNetlinkSocket_loop be evs mem' (buf + unat readlen) bufsize seq pid
                  (msglen + readlen)
         else Some (mem', msglen + readlen))"

definition ReadNetlinkSocket ::
  "bool \<Rightarrow> recv_event list \<Rightarrow> memory \<Rightarrow> nat \<Rightarrow> u32 \<Rightarrow> u32 \<Rightarrow> u32 \<Rightarrow> (memory \<times> u32) option"
where
  "ReadNetlinkSocket be evs mem buf bufsize seq pid =
     ReadNetlinkSocket_loop be evs mem buf bufsize seq pid 0"

section \<open>DefaultRoute\<close>

text \<open>
  The three variables the scan of the response carries. \<^verbatim>\<open>defaultRouteIp\<close> points
  either at the \<^verbatim>\<open>in_addr\<close> that \<^verbatim>\<open>new\<close> returned or into \<open>msg\<close>.
\<close>

datatype in_addr_ptr = NewInAddr | InMsg nat

record scan =
  routeCount :: u32
  foundDefaultRoute :: bool
  defaultRouteIp :: in_addr_ptr

text \<open>
  The body of the \<^verbatim>\<open>switch\<close> for the attribute at \<open>rt_attr\<close>. The three cases read the
  four bytes at \<^verbatim>\<open>RTA_DATA(rt_attr)\<close>, for the log line and in the \<^verbatim>\<open>RTA_DST\<close> case for
  the comparison with 0; no case reads them for anything else.
\<close>

definition rtattr_switch :: "bool \<Rightarrow> memory \<Rightarrow> nat \<Rightarrow> scan \<Rightarrow> fault + scan" where
  "rtattr_switch be mem rt_attr st =
     (if BUFSIZE < rt_attr + 4 then Inl OutsideBuffer
      else if rta_type be mem rt_attr = RTA_OIF then
        (if BUFSIZE < RTA_DATA rt_attr + 4 then Inl OutsideBuffer
         else Inr (st\<lparr>routeCount := routeCount st + 1\<rparr>))
      else if rta_type be mem rt_attr = RTA_GATEWAY then
        (if BUFSIZE < RTA_DATA rt_attr + 4 then Inl OutsideBuffer
         else Inr (st\<lparr>defaultRouteIp := InMsg (RTA_DATA rt_attr), foundDefaultRoute := True\<rparr>))
      else if rta_type be mem rt_attr = RTA_DST then
        (if BUFSIZE < RTA_DATA rt_attr + 4 then Inl OutsideBuffer
         else Inr st)
      else Inr st)"

text \<open>
  \<^verbatim>\<open>for (rt_attr = RTM_RTA(rt_msg); RTA_OK(rt_attr, rt_len); rt_attr = RTA_NEXT(rt_attr, rt_len))\<close>.
  \<^verbatim>\<open>RTA_NEXT\<close> subtracts the aligned length from \<open>rt_len\<close> and adds it to the pointer.
\<close>

function rtattr_loop :: "bool \<Rightarrow> memory \<Rightarrow> nat \<Rightarrow> u32 \<Rightarrow> scan \<Rightarrow> fault + scan" where
  "rtattr_loop be mem rt_attr rt_len st =
     (if \<not> 4 \<le> sint rt_len then Inr st
      else if BUFSIZE < rt_attr + 2 then Inl OutsideBuffer
      else if \<not> RTA_OK be mem rt_attr rt_len then Inr st
      else (case rtattr_switch be mem rt_attr st of
              Inl f \<Rightarrow> Inl f
            | Inr st' \<Rightarrow>
                rtattr_loop be mem
                  (rt_attr + unat (RTA_ALIGN (ucast (rta_len be mem rt_attr))))
                  (rt_len - RTA_ALIGN (ucast (rta_len be mem rt_attr))) st'))"
  by pat_completeness auto
termination
proof (relation "measure (\<lambda>(be, mem, rt_attr, rt_len, st). BUFSIZE - rt_attr)")
  show "wf (measure (\<lambda>(be, mem, rt_attr, rt_len, st). BUFSIZE - rt_attr))"
    by simp
next
  fix be mem rt_attr and rt_len :: u32 and st :: scan and st' :: scan
  assume "\<not> BUFSIZE < rt_attr + 2" and "\<not> \<not> RTA_OK be mem rt_attr rt_len"
  then have "rt_attr < BUFSIZE" and "0 < unat (RTA_ALIGN (ucast (rta_len be mem rt_attr)))"
    by (simp_all add: RTA_OK_def RTA_ALIGN_pos)
  then show "((be, mem, rt_attr + unat (RTA_ALIGN (ucast (rta_len be mem rt_attr))),
               rt_len - RTA_ALIGN (ucast (rta_len be mem rt_attr)), st'),
              (be, mem, rt_attr, rt_len, st))
             \<in> measure (\<lambda>(be, mem, rt_attr, rt_len, st). BUFSIZE - rt_attr)"
    by simp
qed

declare rtattr_loop.simps [simp del]

text \<open>
  The body of the outer loop for the message at \<open>nl_msg\<close>: \<open>foundDefaultRoute\<close> is reset,
  and an entry of family \<^verbatim>\<open>AF_INET\<close> in table \<^verbatim>\<open>RT_TABLE_MAIN\<close> has its attributes
  scanned. \<^verbatim>\<open>&&\<close> reads \<open>rtm_table\<close> only when the family matched.
\<close>

definition route_entry :: "bool \<Rightarrow> memory \<Rightarrow> nat \<Rightarrow> scan \<Rightarrow> fault + scan" where
  "route_entry be mem nl_msg st =
     (let rt_msg = NLMSG_DATA nl_msg;
          st0 = st\<lparr>foundDefaultRoute := False\<rparr>
      in if BUFSIZE < rt_msg + 1 then Inl OutsideBuffer
         else if rtm_family mem rt_msg \<noteq> AF_INET then Inr st0
         else if BUFSIZE < rt_msg + 5 then Inl OutsideBuffer
         else if rtm_table mem rt_msg \<noteq> RT_TABLE_MAIN then Inr st0
         else rtattr_loop be mem (RTM_RTA rt_msg) (RTM_PAYLOAD be mem nl_msg) st0)"

text \<open>
  \<^verbatim>\<open>for (; NLMSG_OK(nl_msg, (unsigned int) len); nl_msg = NLMSG_NEXT(nl_msg, len))\<close> with
  the \<^verbatim>\<open>break\<close> once an entry has set \<open>foundDefaultRoute\<close>. \<^verbatim>\<open>NLMSG_NEXT\<close> subtracts the
  aligned length from \<open>len\<close> and adds it to the pointer. The aligned length is computed
  in 32 bits and is 0 for a declared length of \<open>2 ^ 32 - 3\<close> or more; then neither
  \<open>len\<close> nor the pointer moves and the loop runs the same iteration for ever, which is
  the fault \<open>NeverReturns\<close>.
\<close>

function nlmsg_loop :: "bool \<Rightarrow> memory \<Rightarrow> nat \<Rightarrow> u32 \<Rightarrow> scan \<Rightarrow> fault + scan" where
  "nlmsg_loop be mem nl_msg len st =
     (if \<not> 16 \<le> unat len then Inr st
      else if BUFSIZE < nl_msg + 4 then Inl OutsideBuffer
      else if \<not> NLMSG_OK be mem nl_msg len then Inr st
      else (case route_entry be mem nl_msg st of
              Inl f \<Rightarrow> Inl f
            | Inr st' \<Rightarrow>
                if foundDefaultRoute st' then Inr st'
                else if NLMSG_ALIGN (nlmsg_len be mem nl_msg) = 0 then Inl NeverReturns
                else nlmsg_loop be mem
                       (nl_msg + unat (NLMSG_ALIGN (nlmsg_len be mem nl_msg)))
                       (len - NLMSG_ALIGN (nlmsg_len be mem nl_msg)) st'))"
  by pat_completeness auto
termination
proof (relation "measure (\<lambda>(be, mem, nl_msg, len, st). BUFSIZE - nl_msg)")
  show "wf (measure (\<lambda>(be, mem, nl_msg, len, st). BUFSIZE - nl_msg))"
    by simp
next
  fix be mem nl_msg and len :: u32 and st :: scan and st' :: scan
  assume "\<not> BUFSIZE < nl_msg + 4" and "NLMSG_ALIGN (nlmsg_len be mem nl_msg) \<noteq> 0"
  then have "nl_msg < BUFSIZE" and "0 < unat (NLMSG_ALIGN (nlmsg_len be mem nl_msg))"
    by (simp_all add: unat_gt_0)
  then show "((be, mem, nl_msg + unat (NLMSG_ALIGN (nlmsg_len be mem nl_msg)),
               len - NLMSG_ALIGN (nlmsg_len be mem nl_msg), st'),
              (be, mem, nl_msg, len, st))
             \<in> measure (\<lambda>(be, mem, nl_msg, len, st). BUFSIZE - nl_msg)"
    by simp
qed

declare nlmsg_loop.simps [simp del]

text \<open>
  What the operating system does during one call: the descriptor \<^verbatim>\<open>socket\<close> returns,
  the process id, what \<^verbatim>\<open>send\<close> returns, the events of the \<^verbatim>\<open>recv\<close> calls.
\<close>

record environment =
  socket_result :: int
  getpid_result :: u32
  send_result :: int
  recv_events :: "recv_event list"

text \<open>
  What the caller sees: the \<^verbatim>\<open>bool\<close> returned, the address written to
  \<^verbatim>\<open>*default_route\<close> (\<open>None\<close> when the slot is left as it was; the address is the
  \<^verbatim>\<open>s_addr\<close> word, which holds the four octets in network byte order), and whether
  \<^verbatim>\<open>close(sd)\<close> was called.
\<close>

record outcome =
  returned :: bool
  default_route :: "u32 option"
  socket_closed :: bool

text \<open>The request: \<open>msg\<close> zeroed, then the five fields of the envelope at its start.\<close>

definition request :: "bool \<Rightarrow> environment \<Rightarrow> memory" where
  "request be env =
     store (store (store (store (store memset0
       0 (bytes32 be (NLMSG_LENGTH 12)))
       4 (bytes16 be RTM_GETROUTE))
       6 (bytes16 be (NLM_F_DUMP OR NLM_F_REQUEST)))
       8 (bytes32 be 0))
       12 (bytes32 be (getpid_result env))"

text \<open>
  The end of the function, after the scan: the zero address when no entry set
  \<open>foundDefaultRoute\<close> but \<open>routeCount\<close> is positive, failure when it is 0, and
  otherwise the \<^verbatim>\<open>s_addr\<close> that \<open>defaultRouteIp\<close> points at. \<open>fresh\<close> is the content of
  the \<^verbatim>\<open>in_addr\<close> that \<^verbatim>\<open>new\<close> returned, which the source never initialises.
\<close>

definition select_route :: "bool \<Rightarrow> memory \<Rightarrow> u32 \<Rightarrow> scan \<Rightarrow> fault + outcome" where
  "select_route be mem fresh st =
     (if \<not> foundDefaultRoute st then
        (if 0 < routeCount st then
           (case defaultRouteIp st of
              NewInAddr \<Rightarrow>
                Inr \<lparr>returned = True, default_route = Some 0, socket_closed = True\<rparr>
            | InMsg p \<Rightarrow>
                if BUFSIZE < p + 4 then Inl OutsideBuffer
                else Inr \<lparr>returned = True, default_route = Some 0, socket_closed = True\<rparr>)
         else Inr \<lparr>returned = False, default_route = None, socket_closed = True\<rparr>)
      else
        (case defaultRouteIp st of
           NewInAddr \<Rightarrow>
             Inr \<lparr>returned = True, default_route = Some fresh, socket_closed = True\<rparr>
         | InMsg p \<Rightarrow>
             if BUFSIZE < p + 4 then Inl OutsideBuffer
             else Inr \<lparr>returned = True, default_route = Some (load32 be mem p),
                        socket_closed = True\<rparr>))"

text \<open>The response as \<open>DefaultRoute\<close> reads it: into \<open>msg\<close> from its start, with the
  sequence number and the process id of the request.\<close>

definition read_response :: "bool \<Rightarrow> environment \<Rightarrow> (memory \<times> u32) option" where
  "read_response be env =
     ReadNetlinkSocket be (recv_events env) (request be env) 0 (of_nat BUFSIZE)
       (nlmsg_seq be (request be env) 0) (nlmsg_pid be (request be env) 0)"

definition DefaultRoute :: "bool \<Rightarrow> u32 \<Rightarrow> environment \<Rightarrow> fault + outcome" where
  "DefaultRoute be fresh env =
     (if socket_result env < 0
        then Inr \<lparr>returned = False, default_route = None, socket_closed = False\<rparr>
      else if send_result env < 0
        then Inr \<lparr>returned = False, default_route = None, socket_closed = True\<rparr>
      else (case read_response be env of
              None \<Rightarrow> Inl NeverReturns
            | Some (mem, len) \<Rightarrow>
                if sint len < 0
                  then Inr \<lparr>returned = False, default_route = None, socket_closed = True\<rparr>
                else (case nlmsg_loop be mem 0 len
                             \<lparr>routeCount = 0, foundDefaultRoute = False,
                              defaultRouteIp = NewInAddr\<rparr> of
                        Inl f \<Rightarrow> Inl f
                      | Inr st \<Rightarrow> select_route be mem fresh st)))"

section \<open>The entries and attributes of a response\<close>

text \<open>
  The attributes of an entry, as \<^verbatim>\<open>RTA_OK\<close> and \<^verbatim>\<open>RTA_NEXT\<close> delimit them: the offsets
  the attribute loop visits from \<open>rt_attr\<close> with \<open>rt_len\<close> bytes left, or the fault of
  a length field outside \<open>msg\<close>. The properties below speak about an entry's attributes
  through this list.
\<close>

function rtattrs :: "bool \<Rightarrow> memory \<Rightarrow> nat \<Rightarrow> u32 \<Rightarrow> fault + nat list" where
  "rtattrs be mem rt_attr rt_len =
     (if \<not> 4 \<le> sint rt_len then Inr []
      else if BUFSIZE < rt_attr + 2 then Inl OutsideBuffer
      else if \<not> RTA_OK be mem rt_attr rt_len then Inr []
      else (case rtattrs be mem
                   (rt_attr + unat (RTA_ALIGN (ucast (rta_len be mem rt_attr))))
                   (rt_len - RTA_ALIGN (ucast (rta_len be mem rt_attr))) of
              Inl f \<Rightarrow> Inl f
            | Inr as \<Rightarrow> Inr (rt_attr # as)))"
  by pat_completeness auto
termination
proof (relation "measure (\<lambda>(be, mem, rt_attr, rt_len). BUFSIZE - rt_attr)")
  show "wf (measure (\<lambda>(be, mem, rt_attr, rt_len). BUFSIZE - rt_attr))"
    by simp
next
  fix be mem rt_attr and rt_len :: u32
  assume "\<not> BUFSIZE < rt_attr + 2" and "\<not> \<not> RTA_OK be mem rt_attr rt_len"
  then have "rt_attr < BUFSIZE" and "0 < unat (RTA_ALIGN (ucast (rta_len be mem rt_attr)))"
    by (simp_all add: RTA_OK_def RTA_ALIGN_pos)
  then show "((be, mem, rt_attr + unat (RTA_ALIGN (ucast (rta_len be mem rt_attr))),
               rt_len - RTA_ALIGN (ucast (rta_len be mem rt_attr))),
              (be, mem, rt_attr, rt_len))
             \<in> measure (\<lambda>(be, mem, rt_attr, rt_len). BUFSIZE - rt_attr)"
    by simp
qed

declare rtattrs.simps [simp del]

text \<open>
  The messages of a response, as \<^verbatim>\<open>NLMSG_OK\<close> and \<^verbatim>\<open>NLMSG_NEXT\<close> delimit them: the
  offsets the message loop visits from \<open>nl_msg\<close> with \<open>len\<close> bytes left when no entry
  ends it early, or the fault of a length field outside \<open>msg\<close> or of an aligned
  length of 0.
\<close>

function nlmsgs :: "bool \<Rightarrow> memory \<Rightarrow> nat \<Rightarrow> u32 \<Rightarrow> fault + nat list" where
  "nlmsgs be mem nl_msg len =
     (if \<not> 16 \<le> unat len then Inr []
      else if BUFSIZE < nl_msg + 4 then Inl OutsideBuffer
      else if \<not> NLMSG_OK be mem nl_msg len then Inr []
      else if NLMSG_ALIGN (nlmsg_len be mem nl_msg) = 0 then Inl NeverReturns
      else (case nlmsgs be mem
                   (nl_msg + unat (NLMSG_ALIGN (nlmsg_len be mem nl_msg)))
                   (len - NLMSG_ALIGN (nlmsg_len be mem nl_msg)) of
              Inl f \<Rightarrow> Inl f
            | Inr ms \<Rightarrow> Inr (nl_msg # ms)))"
  by pat_completeness auto
termination
proof (relation "measure (\<lambda>(be, mem, nl_msg, len). BUFSIZE - nl_msg)")
  show "wf (measure (\<lambda>(be, mem, nl_msg, len). BUFSIZE - nl_msg))"
    by simp
next
  fix be mem nl_msg and len :: u32
  assume "\<not> BUFSIZE < nl_msg + 4" and "NLMSG_ALIGN (nlmsg_len be mem nl_msg) \<noteq> 0"
  then have "nl_msg < BUFSIZE" and "0 < unat (NLMSG_ALIGN (nlmsg_len be mem nl_msg))"
    by (simp_all add: unat_gt_0)
  then show "((be, mem, nl_msg + unat (NLMSG_ALIGN (nlmsg_len be mem nl_msg)),
               len - NLMSG_ALIGN (nlmsg_len be mem nl_msg)),
              (be, mem, nl_msg, len))
             \<in> measure (\<lambda>(be, mem, nl_msg, len). BUFSIZE - nl_msg)"
    by simp
qed

declare nlmsgs.simps [simp del]

text \<open>The entry at \<open>nl_msg\<close> passes the family and the table check.\<close>

definition entry_matches :: "memory \<Rightarrow> nat \<Rightarrow> bool" where
  "entry_matches mem nl_msg \<longleftrightarrow>
     rtm_family mem (NLMSG_DATA nl_msg) = AF_INET \<and>
     rtm_table mem (NLMSG_DATA nl_msg) = RT_TABLE_MAIN"

text \<open>The attributes of the entry at \<open>nl_msg\<close>.\<close>

definition entry_attrs :: "bool \<Rightarrow> memory \<Rightarrow> nat \<Rightarrow> fault + nat list" where
  "entry_attrs be mem nl_msg =
     rtattrs be mem (RTM_RTA (NLMSG_DATA nl_msg)) (RTM_PAYLOAD be mem nl_msg)"

text \<open>The attributes of a given type among \<open>as\<close>.\<close>

definition of_type :: "bool \<Rightarrow> memory \<Rightarrow> u16 \<Rightarrow> nat list \<Rightarrow> nat list" where
  "of_type be mem t as = filter (\<lambda>a. rta_type be mem a = t) as"

text \<open>
  The interface-index attributes of the matching entries among \<open>ms\<close>, counted; an
  entry whose attributes cannot be listed counts for none.
\<close>

fun oif_count :: "bool \<Rightarrow> memory \<Rightarrow> nat list \<Rightarrow> nat" where
  "oif_count be mem [] = 0"
| "oif_count be mem (m # ms) =
     (if entry_matches mem m
      then (case entry_attrs be mem m of
              Inl f \<Rightarrow> 0
            | Inr as \<Rightarrow> length (of_type be mem RTA_OIF as))
      else 0) + oif_count be mem ms"

text \<open>
  Every byte the scan reads of the entry at \<open>nl_msg\<close> lies inside \<open>msg\<close>: the family
  and the table of its \<^verbatim>\<open>rtmsg\<close> and, when the entry matches, the length fields, the
  types and the four payload bytes of its attributes.
\<close>

definition entry_inside :: "bool \<Rightarrow> memory \<Rightarrow> nat \<Rightarrow> bool" where
  "entry_inside be mem nl_msg \<longleftrightarrow>
     NLMSG_DATA nl_msg + 5 \<le> BUFSIZE \<and>
     (if entry_matches mem nl_msg
      then (case entry_attrs be mem nl_msg of
              Inl f \<Rightarrow> False
            | Inr as \<Rightarrow> list_all (\<lambda>a. RTA_DATA a + 4 \<le> BUFSIZE) as)
      else True)"

text \<open>The gateway attributes of the entry at \<open>nl_msg\<close>, in the order of the entry.\<close>

definition entry_gateways :: "bool \<Rightarrow> memory \<Rightarrow> nat \<Rightarrow> nat list" where
  "entry_gateways be mem nl_msg =
     (case entry_attrs be mem nl_msg of
        Inl f \<Rightarrow> []
      | Inr as \<Rightarrow> of_type be mem RTA_GATEWAY as)"

text \<open>The state after the attribute loop over the attributes \<open>as\<close>.\<close>

definition after_attrs :: "bool \<Rightarrow> memory \<Rightarrow> nat list \<Rightarrow> scan \<Rightarrow> scan" where
  "after_attrs be mem as st =
     \<lparr>routeCount = routeCount st + of_nat (length (of_type be mem RTA_OIF as)),
      foundDefaultRoute = (foundDefaultRoute st \<or> of_type be mem RTA_GATEWAY as \<noteq> []),
      defaultRouteIp = (if of_type be mem RTA_GATEWAY as = [] then defaultRouteIp st
                        else InMsg (RTA_DATA (last (of_type be mem RTA_GATEWAY as))))\<rparr>"

text \<open>
  The conditions under which the receive loop ends at the datagram just stored at
  \<open>nl_hdr\<close>, of which \<open>readlen\<close> bytes were received: the three \<^verbatim>\<open>return -1\<close>, the two
  \<^verbatim>\<open>break\<close>, and the \<^verbatim>\<open>while\<close> condition being false.
\<close>

definition ends_read_loop :: "bool \<Rightarrow> memory \<Rightarrow> nat \<Rightarrow> u32 \<Rightarrow> u32 \<Rightarrow> u32 \<Rightarrow> bool" where
  "ends_read_loop be mem nl_hdr readlen seq pid \<longleftrightarrow>
     sint readlen < 0 \<or> \<not> NLMSG_OK be mem nl_hdr readlen \<or>
     nlmsg_type be mem nl_hdr = NLMSG_ERROR \<or> nlmsg_type be mem nl_hdr = NLMSG_DONE \<or>
     nlmsg_flags be mem nl_hdr AND NLM_F_MULTI = 0 \<or>
     (nlmsg_seq be mem nl_hdr = seq \<and> nlmsg_pid be mem nl_hdr = pid)"

section \<open>Example responses\<close>

text \<open>
  Datagrams as a little-endian kernel sends them, used to evaluate the functions at
  concrete inputs. Each starts with the 16 bytes of the envelope (length, type, flags,
  sequence number, process id), followed for a route message (type 24,
  \<^verbatim>\<open>RTM_NEWROUTE\<close>) by the 12 bytes of the \<^verbatim>\<open>rtmsg\<close> and one attribute of 8 bytes.
\<close>

text \<open>A single-part IPv4 entry of the main table with the gateway 192.168.1.1.\<close>

definition gateway_datagram :: "byte list" where
  "gateway_datagram =
     [36, 0, 0, 0,  24, 0,  0, 0,  0, 0, 0, 0,  7, 0, 0, 0,
      2, 0, 0, 0,  254, 0, 0, 0,  0, 0, 0, 0,
      8, 0,  5, 0,  192, 168, 1, 1]"


text \<open>The same entry with the destination 0.0.0.0 in place of the gateway.\<close>

definition destination_datagram :: "byte list" where
  "destination_datagram =
     [36, 0, 0, 0,  24, 0,  0, 0,  0, 0, 0, 0,  7, 0, 0, 0,
      2, 0, 0, 0,  254, 0, 0, 0,  0, 0, 0, 0,
      8, 0,  1, 0,  0, 0, 0, 0]"



text \<open>The end of a dump: an envelope of type \<^verbatim>\<open>NLMSG_DONE\<close> with a 4-byte payload.\<close>

definition done_datagram :: "byte list" where
  "done_datagram =
     [20, 0, 0, 0,  3, 0,  2, 0,  0, 0, 0, 0,  7, 0, 0, 0,  0, 0, 0, 0]"

text \<open>An envelope that declares 40 bytes in a datagram of 36.\<close>

definition truncated_datagram :: "byte list" where
  "truncated_datagram =
     [40, 0, 0, 0,  24, 0,  0, 0,  0, 0, 0, 0,  7, 0, 0, 0,
      2, 0, 0, 0,  254, 0, 0, 0,  0, 0, 0, 0,
      8, 0,  5, 0,  192, 168, 1, 1]"

text \<open>A call in which \<^verbatim>\<open>socket\<close> returns 3, the process id is 7 and \<^verbatim>\<open>send\<close> returns
  \<open>sent\<close>, and the kernel answers with the datagrams \<open>ds\<close>.\<close>

definition call :: "int \<Rightarrow> byte list list \<Rightarrow> environment" where
  "call sent ds =
     \<lparr>socket_result = 3, getpid_result = 7, send_result = sent,
      recv_events = map RecvData ds\<rparr>"

text \<open>\<open>msg\<close> after the first \<^verbatim>\<open>recv\<close> of that call has stored the datagram \<open>d\<close>.\<close>

definition msg_after :: "byte list \<Rightarrow> memory" where
  "msg_after d = store (request False (call 28 [d])) 0 d"

text \<open>
  A response whose only message declares the unaligned length 37: one part of a
  multi-part response with the sequence number 9, so that the receive loop goes on,
  holding an entry of family 10, and the same with an entry of family IPv4 in the
  main table; each has one interface-index attribute, followed by one more byte.
\<close>

definition unaligned_other_family_datagram :: "byte list" where
  "unaligned_other_family_datagram =
     [37, 0, 0, 0,  24, 0,  2, 0,  9, 0, 0, 0,  7, 0, 0, 0,
      10, 0, 0, 0,  254, 0, 0, 0,  0, 0, 0, 0,
      8, 0,  4, 0,  2, 0, 0, 0,  0]"

definition unaligned_interface_datagram :: "byte list" where
  "unaligned_interface_datagram =
     [37, 0, 0, 0,  24, 0,  2, 0,  9, 0, 0, 0,  7, 0, 0, 0,
      2, 0, 0, 0,  254, 0, 0, 0,  0, 0, 0, 0,
      8, 0,  4, 0,  2, 0, 0, 0,  0]"

text \<open>
  The end of a dump with a payload of 24 bytes. Stored after 37 bytes, its bytes
  from the fourth on read, at offset 40, as an envelope of 768 bytes with an IPv4
  entry of the main table and the gateway 10.0.0.1.
\<close>

definition done_datagram_with_payload :: "byte list" where
  "done_datagram_with_payload =
     [40, 0, 0, 0,  3, 0,  0, 0,  0, 0, 0, 0,  7, 0, 0, 0,
      0, 0, 0, 2,  0, 0, 0, 254,  0, 0, 0, 0,
      0, 0, 0, 8,  0, 5, 0, 10,  0, 0, 1, 0]"

text \<open>\<open>msg\<close> after the two \<^verbatim>\<open>recv\<close> of a call have stored \<open>d\<close> and, after it, \<open>d'\<close>.\<close>

definition msg_after_two :: "byte list \<Rightarrow> byte list \<Rightarrow> memory" where
  "msg_after_two d d' = store (store (request False (call 28 [d, d'])) 0 d) (length d) d'"

section \<open>Properties of the hostname decomposition\<close>

lemma find_first_of_absent: "c \<notin> set s \<Longrightarrow> find_first_of s c = None"
  by (induction s) auto

text \<open>
  Claim C9. \<open>HostnameFromFQDN\<close> of \<^verbatim>\<open>foo.bar.example.com\<close> is \<^verbatim>\<open>foo\<close> and
  \<open>DomainNameFromFQDN\<close> of it is \<^verbatim>\<open>bar.example.com\<close>; for every string with no dot,
  \<open>HostnameFromFQDN\<close> returns the whole string and \<open>DomainNameFromFQDN\<close> the empty
  string. Neither call throws (the result is \<open>Some\<close>).
\<close>

theorem FQDN_decomposition:
  "HostnameFromFQDN ''foo.bar.example.com'' = Some ''foo'' \<and>
   DomainNameFromFQDN ''foo.bar.example.com'' = Some ''bar.example.com'' \<and>
   (\<forall>s. CHR ''.'' \<notin> set s \<longrightarrow>
      HostnameFromFQDN s = Some s \<and> DomainNameFromFQDN s = Some [])"
proof (intro conjI allI impI)
  show "HostnameFromFQDN ''foo.bar.example.com'' = Some ''foo''"
    by (simp add: HostnameFromFQDN_def substr_def)
  show "DomainNameFromFQDN ''foo.bar.example.com'' = Some ''bar.example.com''"
    by (simp add: DomainNameFromFQDN_def substr_from_def)
next
  fix s :: string
  assume "CHR ''.'' \<notin> set s"
  then have none: "find_first_of s (CHR ''.'') = None"
    by (rule find_first_of_absent)
  show "HostnameFromFQDN s = Some s"
    by (simp add: HostnameFromFQDN_def none)
  show "DomainNameFromFQDN s = Some []"
    by (simp add: DomainNameFromFQDN_def none)
qed

theorem FQDN_decomposition_witness:
  "CHR ''.'' \<notin> set ''localhost'' \<and>
   HostnameFromFQDN ''localhost'' = Some ''localhost'' \<and>
   DomainNameFromFQDN ''localhost'' = Some []"
proof -
  have nodot: "CHR ''.'' \<notin> set ''localhost''" by simp
  from FQDN_decomposition have
    "CHR ''.'' \<notin> set ''localhost'' \<longrightarrow>
       HostnameFromFQDN ''localhost'' = Some ''localhost'' \<and>
       DomainNameFromFQDN ''localhost'' = Some []"
    by blast
  with nodot show ?thesis by blast
qed

section \<open>Properties of the byte order conversions\<close>

lemma mask8_numeral: "(0xff :: 'a::len word) = mask 8"
  by (simp add: mask_eq_exp_minus_1)

lemma mask8_at8: "(0xff00 :: u32) = push_bit 8 (mask 8)"
  by (simp add: mask_eq_exp_minus_1)

lemma mask8_at16: "(0xff0000 :: u32) = push_bit 16 (mask 8)"
  by (simp add: mask_eq_exp_minus_1)

lemma mask8_at24: "(0xff000000 :: u32) = push_bit 24 (mask 8)"
  by (simp add: mask_eq_exp_minus_1)

lemma bswap16_involution: "bswap16 (bswap16 v) = v"
  unfolding bswap16_def mask8_numeral
  by (rule bit_word_eqI) (auto simp add: bit_simps)

lemma bit_ByteSwap:
  "bit (ByteSwap v) n \<longleftrightarrow>
     (if n < 8 then bit v (n + 24) else if n < 16 then bit v (n + 8)
      else if n < 24 then bit v (n - 8) else n < 32 \<and> bit v (n - 24))"
  unfolding ByteSwap_def mask8_numeral mask8_at8 mask8_at16 mask8_at24
  by (auto simp add: bit_simps add.commute dest: bit_imp_le_length)

lemma ByteSwap_involution: "ByteSwap (ByteSwap v) = v"
proof (rule bit_word_eqI)
  fix n assume "n < LENGTH(32)"
  then have "n < 32" by simp
  then consider "n < 8" | "8 \<le> n" "n < 16" | "16 \<le> n" "n < 24" | "24 \<le> n" "n < 32"
    by linarith
  then show "bit (ByteSwap (ByteSwap v)) n = bit v n"
    by cases (auto simp add: bit_ByteSwap)
qed

lemma bswap32_eq_ByteSwap: "bswap32 v = ByteSwap v"
  by (simp add: bswap32_def ByteSwap_def)

lemma swap_expr_unsigned_involution: "swap_expr (ucast (swap_expr (ucast v))) = v"
  unfolding swap_expr_def mask8_numeral
  by (rule bit_word_eqI) (auto simp add: bit_simps dest: bit_imp_le_length)

text \<open>
  The round trips that hold: host to network and back at both widths and both
  signednesses on either kind of host; host to little endian and back for
  \<^verbatim>\<open>uint16_t\<close>, \<^verbatim>\<open>uint32_t\<close> and \<^verbatim>\<open>int32_t\<close> on either kind of host, and for
  \<^verbatim>\<open>int16_t\<close> on a little-endian host.
\<close>

lemma Network_round_trip:
  "NetworkToHost_u16 be (HostToNetwork_u16 be a) = a"
  "NetworkToHost_i16 be (HostToNetwork_i16 be a) = a"
  "NetworkToHost_u32 be (HostToNetwork_u32 be b) = b"
  "NetworkToHost_i32 be (HostToNetwork_i32 be b) = b"
  by (simp_all add: NetworkToHost_u16_def HostToNetwork_u16_def NetworkToHost_i16_def
      HostToNetwork_i16_def NetworkToHost_u32_def HostToNetwork_u32_def NetworkToHost_i32_def
      HostToNetwork_i32_def htons_def ntohs_def htonl_def ntohl_def bswap16_involution
      bswap32_eq_ByteSwap ByteSwap_involution)

lemma LittleEndian_round_trip:
  "LittleEndianToHost_u16 be (HostToLittleEndian_u16 be a) = a"
  "LittleEndianToHost_u32 be (HostToLittleEndian_u32 be b) = b"
  "LittleEndianToHost_i32 be (HostToLittleEndian_i32 be b) = b"
  "LittleEndianToHost_i16 False (HostToLittleEndian_i16 False a) = a"
  by (simp_all add: LittleEndianToHost_u16_def HostToLittleEndian_u16_def
      LittleEndianToHost_u32_def HostToLittleEndian_u32_def LittleEndianToHost_i32_def
      HostToLittleEndian_i32_def LittleEndianToHost_i16_def HostToLittleEndian_i16_def
      swap_expr_unsigned_involution ByteSwap_involution)

text \<open>
  Claim C5, at the input where the code departs from it. On a big-endian host the
  \<^verbatim>\<open>int16_t\<close> overloads promote the negative value \<open>-32767\<close> (bits \<open>0x8001\<close>) to an
  \<^verbatim>\<open>int\<close> by sign extension, so \<^verbatim>\<open>value >> 8\<close> keeps the sign bits and the \<^verbatim>\<open>|\<close> sets
  the whole upper byte of the result: \<open>HostToLittleEndian\<close> returns \<open>0xff80\<close>, not
  \<open>0x0180\<close>, and \<open>LittleEndianToHost\<close> of that returns \<open>0xffff\<close> (\<open>-1\<close>), not the value
  the round trip started from.
\<close>

theorem LittleEndian_int16_round_trip_big_endian:
  "HostToLittleEndian_i16 True 0x8001 = 0xff80 \<and>
   LittleEndianToHost_i16 True (HostToLittleEndian_i16 True 0x8001) = 0xffff \<and>
   LittleEndianToHost_i16 True (HostToLittleEndian_i16 True 0x8001) \<noteq> 0x8001"
  by code_simp

section \<open>Properties of ReadNetlinkSocket\<close>

lemma loop_done:
  assumes "received = take (unat (bufsize - msglen)) d"
    and "mem' = store mem buf received"
    and "readlen = (of_nat (length received) :: u32)"
    and "NLMSG_OK be mem' buf readlen"
    and "nlmsg_type be mem' buf = NLMSG_DONE"
    and "0 \<le> sint readlen"
  shows "ReadNetlinkSocket_loop be (RecvData d # evs) mem buf bufsize seq pid msglen = Some (mem', msglen)
    \<and> (msglen = 0 \<longrightarrow> ReadNetlinkSocket be (RecvData d # evs) mem buf bufsize seq pid = Some (mem', 0))"
proof -
  have not_err: "NLMSG_DONE \<noteq> NLMSG_ERROR"
    by (simp add: NLMSG_DONE_def NLMSG_ERROR_def)
  have first: "ReadNetlinkSocket_loop be (RecvData d # evs) mem buf bufsize seq pid msglen
      = Some (mem', msglen)"
    using assms not_err by (simp add: Let_def)
  then show ?thesis
    by (auto simp add: ReadNetlinkSocket_def)
qed

lemma unat_readlen:
  "unat (of_nat (length (take (unat (n :: u32)) d)) :: u32) = length (take (unat n) d)"
proof -
  have "length (take (unat n) d) \<le> unat n" by simp
  also have "unat n < 2 ^ 32" using unsigned_less [of n] by simp
  finally have "length (take (unat n) d) < 2 ^ 32" .
  then show ?thesis by (simp only: unat_of_nat len_bit0 len_num1 mod_less) simp
qed

lemma over_capacity:
  assumes "received = take (unat (bufsize - msglen :: u32)) d"
    and "readlen = (of_nat (length received) :: u32)"
    and "unat (bufsize - msglen) < unat (nlmsg_len be mem' buf)"
  shows "\<not> NLMSG_OK be mem' buf readlen"
proof -
  have "unat readlen = length received"
    unfolding assms(1,2) by (rule unat_readlen)
  also have "\<dots> \<le> unat (bufsize - msglen)" using assms(1) by simp
  finally have "unat readlen < unat (nlmsg_len be mem' buf)" using assms(3) by simp
  then show ?thesis by (simp add: NLMSG_OK_def word_le_nat_alt)
qed

lemma loop_abort:
  assumes "received = take (unat (bufsize - msglen)) d"
    and "mem' = store mem buf received"
    and "readlen = (of_nat (length received) :: u32)"
    and "\<not> NLMSG_OK be mem' buf readlen \<or> nlmsg_type be mem' buf = NLMSG_ERROR"
  shows "ReadNetlinkSocket_loop be (RecvData d # evs) mem buf bufsize seq pid msglen = Some (mem', - 1)"
  using assms by (auto simp add: Let_def)

lemma DefaultRoute_receive_failed:
  assumes "0 \<le> socket_result env" and "0 \<le> send_result env"
    and "read_response be env = Some (m, l)" and "sint l < 0"
  shows "DefaultRoute be fresh env = Inr \<lparr>returned = False, default_route = None, socket_closed = True\<rparr>"
  using assms by (simp add: DefaultRoute_def)




lemma loop_continue:
  assumes "received = take (unat (bufsize - msglen)) d"
    and "mem' = store mem buf received"
    and "readlen = (of_nat (length received) :: u32)"
    and "\<not> (sint readlen < 0 \<or> \<not> NLMSG_OK be mem' buf readlen \<or> nlmsg_type be mem' buf = NLMSG_ERROR
         \<or> nlmsg_type be mem' buf = NLMSG_DONE \<or> nlmsg_flags be mem' buf AND NLM_F_MULTI = 0
         \<or> (nlmsg_seq be mem' buf = seq \<and> nlmsg_pid be mem' buf = pid))"
  shows "ReadNetlinkSocket_loop be (RecvData d # evs) mem buf bufsize seq pid msglen = 
      ReadNetlinkSocket_loop be evs mem' (buf + unat readlen) bufsize seq pid (msglen + readlen)"
  using assms by (auto simp add: Let_def)

section \<open>Properties of the scan\<close>

lemma RTA_DATA_eq: "RTA_DATA a = a + 4"
  by (simp add: RTA_DATA_def RTA_ALIGN_def)

lemma NLMSG_DATA_eq: "NLMSG_DATA m = m + 16"
  by (simp add: NLMSG_DATA_def NLMSG_LENGTH_def NLMSG_ALIGN_def)

lemma RTM_RTA_eq: "RTM_RTA r = r + 12"
  by (simp add: RTM_RTA_def NLMSG_ALIGN_def)

lemma rtattr_switch_readable:
  assumes "RTA_DATA a + 4 \<le> BUFSIZE"
  shows "rtattr_switch be mem a st = Inr (after_attrs be mem [a] st)"
  using assms
  by (simp add: rtattr_switch_def after_attrs_def of_type_def RTA_DATA_eq
      RTA_OIF_def RTA_GATEWAY_def RTA_DST_def)

lemma after_attrs_Cons:
  "after_attrs be mem (a # as) st = after_attrs be mem as (after_attrs be mem [a] st)"
  by (simp add: after_attrs_def of_type_def)

lemma rtattr_loop_eq:
  assumes "rtattrs be mem rt_attr rt_len = Inr as"
    and "\<forall>a\<in>set as. RTA_DATA a + 4 \<le> BUFSIZE"
  shows "rtattr_loop be mem rt_attr rt_len st = Inr (after_attrs be mem as st)"
  using assms
proof (induction be mem rt_attr rt_len arbitrary: as st rule: rtattrs.induct)
  case (1 be mem rt_attr rt_len)
  show ?case
  proof (cases "4 \<le> sint rt_len \<and> \<not> BUFSIZE < rt_attr + 2 \<and> RTA_OK be mem rt_attr rt_len")
    case False
    with "1.prems"(1) have "as = [] \<and> (\<not> 4 \<le> sint rt_len \<or>
        (\<not> BUFSIZE < rt_attr + 2 \<and> \<not> RTA_OK be mem rt_attr rt_len))"
      by (subst (asm) rtattrs.simps) (auto split: if_splits)
    then show ?thesis
      by (subst rtattr_loop.simps) (auto simp add: after_attrs_def of_type_def)
  next
    case True
    let ?al = "RTA_ALIGN (ucast (rta_len be mem rt_attr))"
    from True "1.prems"(1) obtain as' where
      rest: "rtattrs be mem (rt_attr + unat ?al) (rt_len - ?al) = Inr as'" and as: "as = rt_attr # as'"
      by (subst (asm) rtattrs.simps) (auto split: sum.splits)
    from as "1.prems"(2) have ra: "RTA_DATA rt_attr + 4 \<le> BUFSIZE"
      and ras: "\<forall>a\<in>set as'. RTA_DATA a + 4 \<le> BUFSIZE" by simp_all
    have "rtattr_loop be mem (rt_attr + unat ?al) (rt_len - ?al) (after_attrs be mem [rt_attr] st)
        = Inr (after_attrs be mem as' (after_attrs be mem [rt_attr] st))"
      using True rest ras by (intro "1.IH") simp_all
    with True ra show ?thesis
      by (subst rtattr_loop.simps) (simp add: rtattr_switch_readable as after_attrs_Cons [of _ _ rt_attr as'])
  qed
qed


lemma route_entry_skipped:
  assumes "NLMSG_DATA m + 5 \<le> BUFSIZE" and "\<not> entry_matches mem m"
  shows "route_entry be mem m st = Inr (st\<lparr>foundDefaultRoute := False\<rparr>)"
  using assms by (auto simp add: route_entry_def entry_matches_def Let_def)

lemma route_entry_scanned:
  assumes "entry_inside be mem m" and "entry_matches mem m"
  shows "\<exists>as. entry_attrs be mem m = Inr as \<and>
     route_entry be mem m st = Inr (after_attrs be mem as (st\<lparr>foundDefaultRoute := False\<rparr>))"
proof -
  from assms obtain as where as: "entry_attrs be mem m = Inr as"
    and inside: "\<forall>a\<in>set as. RTA_DATA a + 4 \<le> BUFSIZE" and m: "NLMSG_DATA m + 5 \<le> BUFSIZE"
    by (auto simp add: entry_inside_def list_all_iff split: sum.splits)
  from as inside have "rtattr_loop be mem (RTM_RTA (NLMSG_DATA m)) (RTM_PAYLOAD be mem m)
      (st\<lparr>foundDefaultRoute := False\<rparr>) = Inr (after_attrs be mem as (st\<lparr>foundDefaultRoute := False\<rparr>))"
    unfolding entry_attrs_def by (rule rtattr_loop_eq)
  with assms(2) m as show ?thesis
    by (auto simp add: route_entry_def entry_matches_def Let_def)
qed

lemma route_entry_no_gateway:
  assumes "entry_inside be mem m" and "entry_matches mem m \<longrightarrow> entry_gateways be mem m = []"
    and "\<not> foundDefaultRoute st"
  shows "route_entry be mem m st = Inr (st\<lparr>routeCount := routeCount st + of_nat (oif_count be mem [m])\<rparr>)"
proof (cases "entry_matches mem m")
  case False
  with assms show ?thesis
    by (simp add: route_entry_skipped entry_inside_def)
next
  case True
  from route_entry_scanned [OF assms(1) True, of st] obtain as where
    as: "entry_attrs be mem m = Inr as" and
    r: "route_entry be mem m st = Inr (after_attrs be mem as (st\<lparr>foundDefaultRoute := False\<rparr>))"
    by blast
  from True assms(2) as have "of_type be mem RTA_GATEWAY as = []"
    by (simp add: entry_gateways_def)
  with r as True assms(3) show ?thesis
    by (simp add: after_attrs_def)
qed

lemma oif_count_Cons:
  "oif_count be mem (m # ms) = oif_count be mem [m] + oif_count be mem ms"
  by simp

lemma nlmsg_loop_no_gateway:
  assumes "nlmsgs be mem nl_msg len = Inr ms"
    and "\<forall>m\<in>set ms. entry_inside be mem m"
    and "\<forall>m\<in>set ms. entry_matches mem m \<longrightarrow> entry_gateways be mem m = []"
    and "\<not> foundDefaultRoute st"
  shows "nlmsg_loop be mem nl_msg len st
     = Inr (st\<lparr>routeCount := routeCount st + of_nat (oif_count be mem ms)\<rparr>)"
  using assms
proof (induction be mem nl_msg len arbitrary: ms st rule: nlmsgs.induct)
  case (1 be mem nl_msg len)
  show ?case
  proof (cases "16 \<le> unat len \<and> \<not> BUFSIZE < nl_msg + 4 \<and> NLMSG_OK be mem nl_msg len")
    case False
    with "1.prems"(1) have "ms = [] \<and> (\<not> 16 \<le> unat len \<or>
        (\<not> BUFSIZE < nl_msg + 4 \<and> \<not> NLMSG_OK be mem nl_msg len))"
      by (subst (asm) nlmsgs.simps) (auto split: if_splits)
    then show ?thesis
      by (subst nlmsg_loop.simps) auto
  next
    case True
    let ?al = "NLMSG_ALIGN (nlmsg_len be mem nl_msg)"
    from True "1.prems"(1) obtain ms' where al: "?al \<noteq> 0"
      and rest: "nlmsgs be mem (nl_msg + unat ?al) (len - ?al) = Inr ms'" and ms: "ms = nl_msg # ms'"
      by (subst (asm) nlmsgs.simps) (auto split: sum.splits if_splits)
    let ?st' = "st\<lparr>routeCount := routeCount st + of_nat (oif_count be mem [nl_msg])\<rparr>"
    from ms "1.prems" have entry: "route_entry be mem nl_msg st = Inr ?st'"
      by (intro route_entry_no_gateway) simp_all
    have nf: "\<not> foundDefaultRoute ?st'" using "1.prems"(4) by simp
    have "nlmsg_loop be mem (nl_msg + unat ?al) (len - ?al) ?st'
        = Inr (?st'\<lparr>routeCount := routeCount ?st' + of_nat (oif_count be mem ms')\<rparr>)"
      using True al rest ms "1.prems"(2,3) nf by (intro "1.IH") simp_all
    with True al entry nf show ?thesis
      by (subst nlmsg_loop.simps) (simp add: ms oif_count_Cons [of _ _ nl_msg ms'] add.assoc del: oif_count.simps)
  qed
qed

section \<open>Properties of reading one datagram\<close>

lemma load32_octets:
  assumes "mem p = 192" "mem (p + 1) = 168" "mem (p + 2) = 1" "mem (p + 3) = 1"
  shows "load32 be mem p = HostToNetwork_u32 be 0xC0A80101"
  using assms by (cases be) (simp_all add: load32_def HostToNetwork_u32_def htonl_def bswap32_def)

lemma unat_BUFSIZE: "unat (of_nat BUFSIZE :: u32) = BUFSIZE"
  by (simp add: BUFSIZE_def)

lemma read_response_single:
  assumes "recv_events env = RecvData d # evs" and "length d \<le> BUFSIZE"
    and "mem = store (request be env) 0 d"
    and "NLMSG_OK be mem 0 (of_nat (length d))"
    and "nlmsg_type be mem 0 \<noteq> NLMSG_ERROR" and "nlmsg_type be mem 0 \<noteq> NLMSG_DONE"
    and "nlmsg_flags be mem 0 AND NLM_F_MULTI = 0"
  shows "read_response be env = Some (mem, of_nat (length d))"
proof -
  have "int (length d) < 2 ^ 31" using assms(2) by (simp add: BUFSIZE_def)
  then have "sint (of_nat (length d) :: u32) = int (length d)"
    by (simp add: signed_of_nat signed_take_bit_int_eq_self)
  then have "0 \<le> sint (of_nat (length d) :: u32)" by simp
  with assms show ?thesis
    by (simp add: read_response_def ReadNetlinkSocket_def unat_BUFSIZE Let_def)
qed

lemma read_response_done:
  assumes "recv_events env = RecvData d # evs" and "length d \<le> BUFSIZE"
    and "mem = store (request be env) 0 d"
    and "NLMSG_OK be mem 0 (of_nat (length d))"
    and "nlmsg_type be mem 0 = NLMSG_DONE"
  shows "read_response be env = Some (mem, 0)"
proof -
  have "int (length d) < 2 ^ 31" using assms(2) by (simp add: BUFSIZE_def)
  then have "sint (of_nat (length d) :: u32) = int (length d)"
    by (simp add: signed_of_nat signed_take_bit_int_eq_self)
  then have "0 \<le> sint (of_nat (length d) :: u32)" by simp
  moreover have "NLMSG_DONE \<noteq> NLMSG_ERROR"
    by (simp add: NLMSG_DONE_def NLMSG_ERROR_def)
  ultimately show ?thesis using assms
    by (simp add: read_response_def ReadNetlinkSocket_def unat_BUFSIZE Let_def)
qed

text \<open>A response of two datagrams, the second one the end of the dump.\<close>

lemma read_two:
  assumes "length d \<le> BUFSIZE"
    and "mem1 = store (request False (call 28 [d, d'])) 0 d"
    and "\<not> ends_read_loop False mem1 0 (of_nat (length d)) 0 7"
    and "mem2 = store mem1 (length d) (take (BUFSIZE - length d) d')"
    and "NLMSG_OK False mem2 (length d) (of_nat (length (take (BUFSIZE - length d) d')))"
    and "nlmsg_type False mem2 (length d) = NLMSG_DONE"
    and "nlmsg_seq False (request False (call 28 [d, d'])) 0 = 0"
    and "nlmsg_pid False (request False (call 28 [d, d'])) 0 = 7"
  shows "read_response False (call 28 [d, d']) = Some (mem2, of_nat (length d))"
proof -
  let ?req = "request False (call 28 [d, d'])"
  have d: "length d < 2 ^ 32" using assms(1) by (simp add: BUFSIZE_def)
  have u: "unat (of_nat (length d) :: u32) = length d"
    using d by (simp only: unat_of_nat len_bit0 len_num1 mod_less) simp
  have ub: "unat (of_nat BUFSIZE - (0 :: u32)) = BUFSIZE"
    by (simp add: BUFSIZE_def)
  have t: "take (unat (of_nat BUFSIZE - (0 :: u32))) d = d"
    using assms(1) by (simp only: ub) simp
  have first: "ReadNetlinkSocket_loop False (RecvData d # [RecvData d']) ?req 0 (of_nat BUFSIZE) 0 7 0
      = ReadNetlinkSocket_loop False [RecvData d'] mem1 (0 + unat (of_nat (length d) :: u32))
          (of_nat BUFSIZE) 0 7 (0 + of_nat (length d))"
    using assms(2,3) t unfolding ends_read_loop_def
    by (intro loop_continue [where received = d]) simp_all
  have sub: "unat (of_nat BUFSIZE - (of_nat (length d) :: u32)) = BUFSIZE - length d"
    using assms(1) u by (simp add: unat_sub word_le_nat_alt BUFSIZE_def unat_of_nat)
  have "int (length (take (BUFSIZE - length d) d')) < 2 ^ 31"
    by (simp add: BUFSIZE_def)
  then have "sint (of_nat (length (take (BUFSIZE - length d) d')) :: u32)
      = int (length (take (BUFSIZE - length d) d'))"
    by (simp only: signed_of_nat) (simp add: signed_take_bit_int_eq_self)
  then have nn: "0 \<le> sint (of_nat (length (take (BUFSIZE - length d) d')) :: u32)"
    by simp
  have second: "ReadNetlinkSocket_loop False (RecvData d' # []) mem1 (length d) (of_nat BUFSIZE) 0 7
      (of_nat (length d)) = Some (mem2, of_nat (length d))"
    using assms(4-6) nn sub
    by (intro conjunct1 [OF loop_done [where received = "take (BUFSIZE - length d) d'"
          and readlen = "of_nat (length (take (BUFSIZE - length d) d'))"]]) simp_all
  from first second u assms(7,8) show ?thesis
    by (simp add: read_response_def ReadNetlinkSocket_def call_def)
qed

text \<open>One iteration of the message loop.\<close>

lemma nlmsg_loop_step:
  assumes "16 \<le> unat len" and "nl_msg + 4 \<le> BUFSIZE" and "NLMSG_OK be mem nl_msg len"
    and "route_entry be mem nl_msg st = Inr st'"
  shows "nlmsg_loop be mem nl_msg len st =
     (if foundDefaultRoute st' then Inr st'
      else if NLMSG_ALIGN (nlmsg_len be mem nl_msg) = 0 then Inl NeverReturns
      else nlmsg_loop be mem (nl_msg + unat (NLMSG_ALIGN (nlmsg_len be mem nl_msg)))
             (len - NLMSG_ALIGN (nlmsg_len be mem nl_msg)) st')"
  using assms by (subst nlmsg_loop.simps) simp

section \<open>The claims about DefaultRoute and ReadNetlinkSocket\<close>

text \<open>
  Claim C1. When the response starts with an entry of family IPv4 in the main table
  that carries a gateway attribute holding 192.168.1.1 (the last gateway attribute,
  should the entry carry several), \<open>DefaultRoute\<close> returns success and writes that
  address to the output slot. The response is the buffer and the length that
  \<open>ReadNetlinkSocket\<close> produced; its first envelope is valid, and all the entry's
  bytes that the scan reads lie inside \<open>msg\<close>.
\<close>

theorem gateway_entry_gives_gateway:
  assumes "0 \<le> socket_result env" and "0 \<le> send_result env"
    and "read_response be env = Some (mem, len)" and "0 \<le> sint len"
    and "NLMSG_OK be mem 0 len"
    and "entry_matches mem 0" and "entry_inside be mem 0"
    and "entry_gateways be mem 0 \<noteq> []"
    and "map mem [RTA_DATA (last (entry_gateways be mem 0)) ..<
                  RTA_DATA (last (entry_gateways be mem 0)) + 4] = [192, 168, 1, 1]"
  shows "DefaultRoute be fresh env =
     Inr \<lparr>returned = True, default_route = Some (HostToNetwork_u32 be 0xC0A80101),
          socket_closed = True\<rparr>"
proof -
  let ?st0 = "\<lparr>routeCount = 0, foundDefaultRoute = False, defaultRouteIp = NewInAddr\<rparr>"
  let ?g = "last (entry_gateways be mem 0)"
  from route_entry_scanned [OF assms(7) assms(6), of ?st0] obtain as where
    as: "entry_attrs be mem 0 = Inr as" and
    entry: "route_entry be mem 0 ?st0 = Inr (after_attrs be mem as (?st0\<lparr>foundDefaultRoute := False\<rparr>))"
    by blast
  from as have gw: "entry_gateways be mem 0 = of_type be mem RTA_GATEWAY as"
    by (simp add: entry_gateways_def)
  with assms(8) have "?g \<in> set as"
    using last_in_set [of "of_type be mem RTA_GATEWAY as"] by (auto simp add: of_type_def)
  with assms(7) assms(6) as have inside: "\<not> BUFSIZE < RTA_DATA ?g + 4"
    by (auto simp add: entry_inside_def list_all_iff)
  have scan: "nlmsg_loop be mem 0 len ?st0
      = Inr (after_attrs be mem as (?st0\<lparr>foundDefaultRoute := False\<rparr>))"
    using assms(5,8) entry gw
    by (subst nlmsg_loop.simps) (simp add: NLMSG_OK_def BUFSIZE_def after_attrs_def)
  have "[RTA_DATA ?g ..< RTA_DATA ?g + 4]
      = [RTA_DATA ?g, RTA_DATA ?g + 1, RTA_DATA ?g + 2, RTA_DATA ?g + 3]"
    by (simp add: upt_rec)
  with assms(9) have "load32 be mem (RTA_DATA ?g) = HostToNetwork_u32 be 0xC0A80101"
    by (intro load32_octets) simp_all
  with assms(1-4) scan inside assms(8) gw show ?thesis
    by (simp add: DefaultRoute_def select_route_def after_attrs_def)
qed


theorem gateway_entry_gives_gateway_witness:
  "0 \<le> socket_result (call 28 [gateway_datagram]) \<and>
   0 \<le> send_result (call 28 [gateway_datagram]) \<and>
   read_response False (call 28 [gateway_datagram]) = Some (msg_after gateway_datagram, 36) \<and>
   0 \<le> sint (36 :: u32) \<and>
   NLMSG_OK False (msg_after gateway_datagram) 0 36 \<and>
   entry_matches (msg_after gateway_datagram) 0 \<and>
   entry_inside False (msg_after gateway_datagram) 0 \<and>
   entry_gateways False (msg_after gateway_datagram) 0 = [28] \<and>
   map (msg_after gateway_datagram) [32 ..< 36] = [192, 168, 1, 1] \<and>
   DefaultRoute False 0 (call 28 [gateway_datagram]) =
     Inr \<lparr>returned = True, default_route = Some 0x0101A8C0, socket_closed = True\<rparr>"
proof -
  let ?env = "call 28 [gateway_datagram]" and ?mem = "msg_after gateway_datagram"
  have env: "0 \<le> socket_result ?env" "0 \<le> send_result ?env"
    by (simp_all add: call_def)
  have len: "length gateway_datagram = 36"
    by (simp add: gateway_datagram_def)
  have ok: "NLMSG_OK False ?mem 0 36"
    by code_simp
  have single: "nlmsg_type False ?mem 0 \<noteq> NLMSG_ERROR \<and> nlmsg_type False ?mem 0 \<noteq> NLMSG_DONE \<and>
      nlmsg_flags False ?mem 0 AND NLM_F_MULTI = 0"
    by code_simp
  have "read_response False ?env = Some (?mem, of_nat (length gateway_datagram))"
    using ok single by (intro read_response_single [where evs = "[]"])
      (simp_all add: len call_def msg_after_def BUFSIZE_def)
  then have read: "read_response False ?env = Some (?mem, 36)"
    by (simp add: len)
  have entry: "entry_matches ?mem 0 \<and> entry_inside False ?mem 0 \<and>
      entry_gateways False ?mem 0 = [28]"
    by code_simp
  have octets: "map ?mem [32 ..< 36] = [192, 168, 1, 1]"
    by code_simp
  have host: "HostToNetwork_u32 False 0xC0A80101 = 0x0101A8C0"
    by code_simp
  have "DefaultRoute False 0 ?env =
      Inr \<lparr>returned = True, default_route = Some (HostToNetwork_u32 False 0xC0A80101),
           socket_closed = True\<rparr>"
    using env read ok entry octets
    by (intro gateway_entry_gives_gateway [where mem = ?mem and len = 36])
      (simp_all add: RTA_DATA_eq)
  with env read ok entry octets host show ?thesis
    by simp
qed

text \<open>
  The messages the scan visits, \<open>nlmsgs\<close>, lie inside the response when the length that
  \<open>ReadNetlinkSocket\<close> returned is a multiple of 4: then \<^verbatim>\<open>NLMSG_NEXT\<close> never takes
  \<open>len\<close> below 0, and the scan ends without a fault.
\<close>

lemma unat_NLMSG_ALIGN:
  assumes "unat x + 3 < 2 ^ 32"
  shows "unat (NLMSG_ALIGN x) = (unat x + 3) div 4 * 4"
proof -
  have "unat (x + 3) = unat x + 3"
    using assms by (simp add: unat_word_ariths)
  moreover have "unat (NLMSG_ALIGN x) = unat (x + 3) div 4 * 4"
    unfolding NLMSG_ALIGN_def by (rule unat_and_not3)
  ultimately show ?thesis by simp
qed

lemma nlmsgs_inside_response:
  assumes "4 dvd unat len" and "nl_msg + unat len \<le> BUFSIZE"
  shows "\<exists>ms. nlmsgs be mem nl_msg len = Inr ms \<and>
     (\<forall>m\<in>set ms. nl_msg \<le> m \<and> m + unat (nlmsg_len be mem m) \<le> nl_msg + unat len)"
  using assms
proof (induction be mem nl_msg len rule: nlmsgs.induct)
  case (1 be mem nl_msg len)
  show ?case
  proof (cases "16 \<le> unat len \<and> NLMSG_OK be mem nl_msg len")
    case False
    then have "nlmsgs be mem nl_msg len = Inr []"
      using "1.prems"(2) by (subst nlmsgs.simps) auto
    then show ?thesis by simp
  next
    case True
    let ?n = "nlmsg_len be mem nl_msg"
    let ?al = "NLMSG_ALIGN ?n"
    from True have n: "16 \<le> unat ?n" "unat ?n \<le> unat len"
      by (simp_all add: NLMSG_OK_def word_le_nat_alt)
    have small: "unat len \<le> 8192" using "1.prems"(2) by (simp add: BUFSIZE_def)
    with n have al: "unat ?al = (unat ?n + 3) div 4 * 4"
      by (intro unat_NLMSG_ALIGN) simp
    have "16 \<le> (unat ?n + 3) div 4 * 4"
      using n(1) by presburger
    with al have al16: "16 \<le> unat ?al" by simp
    then have nz: "?al \<noteq> 0" by (auto simp add: unat_eq_zero)
    from "1.prems"(1) obtain k where k: "unat len = 4 * k" by (auto simp add: dvd_def)
    have "(unat ?n + 3) div 4 * 4 \<le> 4 * k"
      using n(2) k by presburger
    with al k have le: "unat ?al \<le> unat len" by simp
    then have sub: "unat (len - ?al) = unat len - unat ?al"
      by (simp add: unat_sub word_le_nat_alt)
    have dvd': "4 dvd unat (len - ?al)"
      unfolding sub using "1.prems"(1) al by (simp add: dvd_diff_nat)
    have inb: "nl_msg + unat ?al + unat (len - ?al) \<le> BUFSIZE"
      using sub le "1.prems"(2) by simp
    have hdr: "\<not> BUFSIZE < nl_msg + 4"
      using True "1.prems"(2) by simp
    from "1.IH" [OF _ hdr _ nz dvd' inb] True obtain ms' where
      rest: "nlmsgs be mem (nl_msg + unat ?al) (len - ?al) = Inr ms'" and
      ins: "\<forall>m\<in>set ms'. nl_msg + unat ?al \<le> m \<and>
          m + unat (nlmsg_len be mem m) \<le> nl_msg + unat ?al + unat (len - ?al)"
      by auto
    from True hdr nz rest have "nlmsgs be mem nl_msg len = Inr (nl_msg # ms')"
      by (subst nlmsgs.simps) simp
    moreover from ins sub le n al have "\<forall>m\<in>set (nl_msg # ms').
        nl_msg \<le> m \<and> m + unat (nlmsg_len be mem m) \<le> nl_msg + unat len"
      by auto
    ultimately show ?thesis by blast
  qed
qed

text \<open>
  What \<open>DefaultRoute\<close> returns in terms of the messages its scan visits. After a
  message whose aligned length exceeds what is left of a length that is not a
  multiple of 4, the list \<open>nlmsgs\<close> goes on past the length that \<open>ReadNetlinkSocket\<close>
  returned. The two lemmas hold of that list, not of the response alone.
\<close>

lemma scan_without_gateway:
  assumes "0 \<le> socket_result env" and "0 \<le> send_result env"
    and "read_response be env = Some (mem, len)" and "0 \<le> sint len"
    and "nlmsgs be mem 0 len = Inr ms"
    and "list_all (entry_inside be mem) ms"
    and "list_all (\<lambda>m. entry_gateways be mem m = []) (filter (entry_matches mem) ms)"
    and "0 < (of_nat (oif_count be mem ms) :: u32)"
  shows "DefaultRoute be fresh env =
     Inr \<lparr>returned = True, default_route = Some 0, socket_closed = True\<rparr>"
proof -
  let ?st0 = "\<lparr>routeCount = 0, foundDefaultRoute = False, defaultRouteIp = NewInAddr\<rparr>"
  have "nlmsg_loop be mem 0 len ?st0
      = Inr (?st0\<lparr>routeCount := routeCount ?st0 + of_nat (oif_count be mem ms)\<rparr>)"
    using assms(5-7) by (intro nlmsg_loop_no_gateway) (simp_all add: list_all_iff)
  with assms(1-4,8) show ?thesis
    by (simp add: DefaultRoute_def select_route_def)
qed

lemma scan_without_matching_entry:
  assumes "0 \<le> socket_result env" and "0 \<le> send_result env"
    and "read_response be env = Some (mem, len)" and "0 \<le> sint len"
    and "len = 0 \<or>
         (nlmsgs be mem 0 len = Inr ms \<and>
          list_all (\<lambda>m. NLMSG_DATA m + 5 \<le> BUFSIZE \<and> \<not> entry_matches mem m) ms)"
  shows "DefaultRoute be fresh env =
     Inr \<lparr>returned = False, default_route = None, socket_closed = True\<rparr>"
proof -
  let ?st0 = "\<lparr>routeCount = 0, foundDefaultRoute = False, defaultRouteIp = NewInAddr\<rparr>"
  have "nlmsg_loop be mem 0 len ?st0 = Inr ?st0"
  proof (cases "len = 0")
    case True
    then show ?thesis
      by (subst nlmsg_loop.simps) simp
  next
    case False
    with assms(5) have ms: "nlmsgs be mem 0 len = Inr ms"
      and skip: "\<forall>m\<in>set ms. NLMSG_DATA m + 5 \<le> BUFSIZE \<and> \<not> entry_matches mem m"
      by (simp_all add: list_all_iff)
    from skip have count: "oif_count be mem ms = 0"
      by (induction ms) simp_all
    have "nlmsg_loop be mem 0 len ?st0
        = Inr (?st0\<lparr>routeCount := routeCount ?st0 + of_nat (oif_count be mem ms)\<rparr>)"
      using ms skip by (intro nlmsg_loop_no_gateway) (simp_all add: entry_inside_def)
    then show ?thesis
      by (simp add: count)
  qed
  with assms(1-4) show ?thesis
    by (simp add: DefaultRoute_def select_route_def)
qed

text \<open>
  Claim C2, at an input where the code departs from it. The response is the 37
  bytes that \<open>ReadNetlinkSocket\<close> returns: one message that declares 37 bytes, an
  IPv4 entry of the main table whose only attribute is an interface index.
  \<^verbatim>\<open>NLMSG_NEXT\<close> subtracts the aligned length 40 and leaves \<open>len\<close> at \<open>-3\<close>; the call
  site casts \<open>len\<close> to \<^verbatim>\<open>unsigned int\<close>, so \<^verbatim>\<open>NLMSG_OK\<close> accepts what stands at offset 40,
  which is the inside of the end-of-dump datagram that \<^verbatim>\<open>recv\<close> stored there and
  \<open>ReadNetlinkSocket\<close> did not count. The scan reads a gateway out of it, and
  \<open>DefaultRoute\<close> returns 10.0.0.1, not the zero address.
\<close>

theorem scan_finds_gateway_past_interface_only_response:
  "map_option snd (read_response False
      (call 28 [unaligned_interface_datagram, done_datagram_with_payload])) = Some 37 \<and>
   unat (nlmsg_len False
      (msg_after_two unaligned_interface_datagram done_datagram_with_payload) 0) = 37 \<and>
   entry_matches (msg_after_two unaligned_interface_datagram done_datagram_with_payload) 0 \<and>
   entry_attrs False (msg_after_two unaligned_interface_datagram done_datagram_with_payload) 0
     = Inr [28] \<and>
   rta_type False (msg_after_two unaligned_interface_datagram done_datagram_with_payload) 28
     = RTA_OIF \<and>
   DefaultRoute False 0 (call 28 [unaligned_interface_datagram, done_datagram_with_payload])
     = Inr \<lparr>returned = True, default_route = Some 0x0100000A, socket_closed = True\<rparr>"
proof -
  let ?d = unaligned_interface_datagram and ?d' = done_datagram_with_payload
  let ?env = "call 28 [?d, ?d']"
  let ?mem = "msg_after_two ?d ?d'"
  let ?st0 = "\<lparr>routeCount = 0, foundDefaultRoute = False, defaultRouteIp = NewInAddr\<rparr>"
  let ?st1 = "\<lparr>routeCount = 1, foundDefaultRoute = False, defaultRouteIp = NewInAddr\<rparr>"
  let ?st2 = "\<lparr>routeCount = 1, foundDefaultRoute = True, defaultRouteIp = InMsg 72\<rparr>"
  have len: "length ?d = 37" "take (BUFSIZE - length ?d) ?d' = ?d'"
    by (simp_all add: unaligned_interface_datagram_def done_datagram_with_payload_def
        BUFSIZE_def)
  have facts: "\<not> ends_read_loop False (store (request False ?env) 0 ?d) 0 37 0 7"
    "NLMSG_OK False ?mem 37 40" "nlmsg_type False ?mem 37 = NLMSG_DONE"
    "nlmsg_seq False (request False ?env) 0 = 0" "nlmsg_pid False (request False ?env) 0 = 7"
    by code_simp+
  have "read_response False ?env = Some (?mem, of_nat (length ?d))"
    using facts
    by (intro read_two [where ?mem1.0 = "store (request False ?env) 0 ?d"])
      (simp_all add: len msg_after_two_def BUFSIZE_def
        done_datagram_with_payload_def [THEN arg_cong, of length])
  then have read: "read_response False ?env = Some (?mem, 37)"
    by (simp add: len)
  have first: "NLMSG_OK False ?mem 0 37" "unat (nlmsg_len False ?mem 0) = 37"
    "entry_matches ?mem 0" "entry_attrs False ?mem 0 = Inr [28]"
    "rta_type False ?mem 28 = RTA_OIF"
    "route_entry False ?mem 0 ?st0 = Inr ?st1"
    "NLMSG_ALIGN (nlmsg_len False ?mem 0) = 40"
    by code_simp+
  have ghost: "nlmsg_len False ?mem 40 = 768"
    "route_entry False ?mem 40 ?st1 = Inr ?st2"
    "load32 False ?mem 72 = 0x0100000A"
    by code_simp+
  have ok: "NLMSG_OK False ?mem 40 (37 - 40)"
    by (simp add: NLMSG_OK_def ghost(1) word_le_def)
  have "nlmsg_loop False ?mem 40 (37 - 40) ?st1 = Inr ?st2"
    using ok ghost(2)
    by (subst nlmsg_loop_step [where st' = ?st2]) (simp_all add: BUFSIZE_def)
  then have "nlmsg_loop False ?mem 0 37 ?st0 = Inr ?st2"
    using first
    by (subst nlmsg_loop_step [where st' = ?st1]) (simp_all add: BUFSIZE_def)
  with read ghost(3) have "DefaultRoute False 0 ?env
      = Inr \<lparr>returned = True, default_route = Some 0x0100000A, socket_closed = True\<rparr>"
    by (simp add: DefaultRoute_def select_route_def call_def BUFSIZE_def)
  with read first show ?thesis
    by simp
qed

text \<open>
  Claim C3, at an input where the code departs from it. The response is the 37
  bytes that \<open>ReadNetlinkSocket\<close> returns: one message that declares 37 bytes, an
  entry of family 10. As above the scan goes on at offset 40 with \<open>len\<close> at \<open>-3\<close>,
  reads an IPv4 entry with a gateway out of the end-of-dump datagram, and
  \<open>DefaultRoute\<close> returns success with 10.0.0.1, not failure.
\<close>

theorem scan_runs_past_unaligned_response:
  "map_option snd (read_response False
      (call 28 [unaligned_other_family_datagram, done_datagram_with_payload])) = Some 37 \<and>
   unat (nlmsg_len False
      (msg_after_two unaligned_other_family_datagram done_datagram_with_payload) 0) = 37 \<and>
   \<not> entry_matches
      (msg_after_two unaligned_other_family_datagram done_datagram_with_payload) 0 \<and>
   DefaultRoute False 0 (call 28 [unaligned_other_family_datagram, done_datagram_with_payload])
     = Inr \<lparr>returned = True, default_route = Some 0x0100000A, socket_closed = True\<rparr>"
proof -
  let ?d = unaligned_other_family_datagram and ?d' = done_datagram_with_payload
  let ?env = "call 28 [?d, ?d']"
  let ?mem = "msg_after_two ?d ?d'"
  let ?st0 = "\<lparr>routeCount = 0, foundDefaultRoute = False, defaultRouteIp = NewInAddr\<rparr>"
  have len: "length ?d = 37" "take (BUFSIZE - length ?d) ?d' = ?d'"
    by (simp_all add: unaligned_other_family_datagram_def done_datagram_with_payload_def
        BUFSIZE_def)
  have facts: "\<not> ends_read_loop False (store (request False ?env) 0 ?d) 0 37 0 7"
    "NLMSG_OK False ?mem 37 40" "nlmsg_type False ?mem 37 = NLMSG_DONE"
    "nlmsg_seq False (request False ?env) 0 = 0" "nlmsg_pid False (request False ?env) 0 = 7"
    by code_simp+
  have "read_response False ?env = Some (?mem, of_nat (length ?d))"
    using facts
    by (intro read_two [where ?mem1.0 = "store (request False ?env) 0 ?d"])
      (simp_all add: len msg_after_two_def BUFSIZE_def
        done_datagram_with_payload_def [THEN arg_cong, of length])
  then have read: "read_response False ?env = Some (?mem, 37)"
    by (simp add: len)
  have first: "NLMSG_OK False ?mem 0 37" "unat (nlmsg_len False ?mem 0) = 37"
    "\<not> entry_matches ?mem 0"
    "route_entry False ?mem 0 ?st0 = Inr ?st0"
    "NLMSG_ALIGN (nlmsg_len False ?mem 0) = 40"
    by code_simp+
  have ghost: "nlmsg_len False ?mem 40 = 768"
    "route_entry False ?mem 40 ?st0
       = Inr \<lparr>routeCount = 0, foundDefaultRoute = True, defaultRouteIp = InMsg 72\<rparr>"
    "load32 False ?mem 72 = 0x0100000A"
    by code_simp+
  have ok: "NLMSG_OK False ?mem 40 (37 - 40)"
    by (simp add: NLMSG_OK_def ghost(1) word_le_def)
  have "nlmsg_loop False ?mem 40 (37 - 40) ?st0
      = Inr \<lparr>routeCount = 0, foundDefaultRoute = True, defaultRouteIp = InMsg 72\<rparr>"
    using ok ghost(2)
    by (subst nlmsg_loop_step [where st' = "\<lparr>routeCount = 0, foundDefaultRoute = True,
        defaultRouteIp = InMsg 72\<rparr>"]) (simp_all add: BUFSIZE_def)
  then have "nlmsg_loop False ?mem 0 37 ?st0
      = Inr \<lparr>routeCount = 0, foundDefaultRoute = True, defaultRouteIp = InMsg 72\<rparr>"
    using first
    by (subst nlmsg_loop_step [where st' = ?st0]) (simp_all add: BUFSIZE_def)
  with read ghost(3) have "DefaultRoute False 0 ?env
      = Inr \<lparr>returned = True, default_route = Some 0x0100000A, socket_closed = True\<rparr>"
    by (simp add: DefaultRoute_def select_route_def call_def BUFSIZE_def)
  with read first show ?thesis
    by simp
qed

text \<open>
  Claim C8. For a matching entry whose bytes lie inside \<open>msg\<close>, the scan of the entry
  ends with \<open>foundDefaultRoute\<close> set exactly when the entry carries a gateway attribute;
  and the \<^verbatim>\<open>switch\<close> leaves all three variables of the scan as they were for a
  destination attribute, whatever address it holds, 0.0.0.0 included. What
  \<open>DefaultRoute\<close> returns is computed from those variables.
\<close>

theorem destination_does_not_mark_default:
  assumes "entry_inside be mem nl_msg" and "entry_matches mem nl_msg"
  shows "(\<exists>st'. route_entry be mem nl_msg st = Inr st' \<and>
            (foundDefaultRoute st' \<longleftrightarrow> entry_gateways be mem nl_msg \<noteq> [])) \<and>
         (\<forall>a s. rta_type be mem a = RTA_DST \<and> RTA_DATA a + 4 \<le> BUFSIZE \<longrightarrow>
            rtattr_switch be mem a s = Inr s)"
proof (intro conjI allI impI)
  from route_entry_scanned [OF assms, of st] obtain as where
    as: "entry_attrs be mem nl_msg = Inr as" and
    r: "route_entry be mem nl_msg st = Inr (after_attrs be mem as (st\<lparr>foundDefaultRoute := False\<rparr>))"
    by blast
  from as have "entry_gateways be mem nl_msg = of_type be mem RTA_GATEWAY as"
    by (simp add: entry_gateways_def)
  with r show "\<exists>st'. route_entry be mem nl_msg st = Inr st' \<and>
      (foundDefaultRoute st' \<longleftrightarrow> entry_gateways be mem nl_msg \<noteq> [])"
    by (simp add: after_attrs_def)
next
  fix a s
  assume "rta_type be mem a = RTA_DST \<and> RTA_DATA a + 4 \<le> BUFSIZE"
  then show "rtattr_switch be mem a s = Inr s"
    by (simp add: rtattr_switch_def RTA_DATA_eq RTA_DST_def RTA_OIF_def RTA_GATEWAY_def)
qed

theorem destination_does_not_mark_default_witness:
  "entry_inside False (msg_after destination_datagram) 0 \<and>
   entry_matches (msg_after destination_datagram) 0 \<and>
   entry_gateways False (msg_after destination_datagram) 0 = [] \<and>
   (\<exists>st'. route_entry False (msg_after destination_datagram) 0
             \<lparr>routeCount = 0, foundDefaultRoute = False, defaultRouteIp = NewInAddr\<rparr> = Inr st' \<and>
          \<not> foundDefaultRoute st') \<and>
   rta_type False (msg_after destination_datagram) 28 = RTA_DST \<and>
   load32 False (msg_after destination_datagram) (RTA_DATA 28) = 0 \<and>
   RTA_DATA 28 + 4 \<le> BUFSIZE \<and>
   rtattr_switch False (msg_after destination_datagram) 28
     \<lparr>routeCount = 0, foundDefaultRoute = False, defaultRouteIp = NewInAddr\<rparr>
     = Inr \<lparr>routeCount = 0, foundDefaultRoute = False, defaultRouteIp = NewInAddr\<rparr>"
proof -
  let ?mem = "msg_after destination_datagram"
  let ?st0 = "\<lparr>routeCount = 0, foundDefaultRoute = False, defaultRouteIp = NewInAddr\<rparr>"
  have entry: "entry_inside False ?mem 0 \<and> entry_matches ?mem 0 \<and>
      entry_gateways False ?mem 0 = []"
    by code_simp
  have dst: "rta_type False ?mem 28 = RTA_DST \<and> load32 False ?mem (RTA_DATA 28) = 0 \<and>
      RTA_DATA 28 + 4 \<le> BUFSIZE"
    by code_simp
  from entry have both:
    "(\<exists>st'. route_entry False ?mem 0 ?st0 = Inr st' \<and>
        (foundDefaultRoute st' \<longleftrightarrow> entry_gateways False ?mem 0 \<noteq> [])) \<and>
     (\<forall>a s. rta_type False ?mem a = RTA_DST \<and> RTA_DATA a + 4 \<le> BUFSIZE \<longrightarrow>
        rtattr_switch False ?mem a s = Inr s)"
    by (intro destination_does_not_mark_default) simp_all
  from both entry have "\<exists>st'. route_entry False ?mem 0 ?st0 = Inr st' \<and> \<not> foundDefaultRoute st'"
    by auto
  moreover from both dst have "rtattr_switch False ?mem 28 ?st0 = Inr ?st0"
    by blast
  ultimately show ?thesis
    using entry dst by simp
qed

text \<open>
  Claim C10. A valid envelope of type end-of-dump ends the loop before \<open>msglen\<close> is
  advanced: the count returned is the count before that datagram, and 0 when it is
  the first datagram of the response. (\<open>received\<close> are the bytes \<^verbatim>\<open>recv\<close> stored,
  \<open>mem'\<close> is \<open>msg\<close> after it, \<open>readlen\<close> is what it returned.)
\<close>

theorem end_of_dump_not_counted:
  assumes "received = take (unat (bufsize - msglen)) d"
    and "mem' = store mem buf received"
    and "readlen = (of_nat (length received) :: u32)"
    and "0 \<le> sint readlen"
    and "NLMSG_OK be mem' buf readlen"
    and "nlmsg_type be mem' buf = NLMSG_DONE"
  shows "ReadNetlinkSocket_loop be (RecvData d # evs) mem buf bufsize seq pid msglen
           = Some (mem', msglen) \<and>
         (msglen = 0 \<longrightarrow>
            ReadNetlinkSocket be (RecvData d # evs) mem buf bufsize seq pid = Some (mem', 0))"
  using assms by (intro loop_done [where received = received and readlen = readlen]) simp_all

theorem end_of_dump_not_counted_witness:
  "0 \<le> sint (20 :: u32) \<and>
   NLMSG_OK False (store memset0 0 done_datagram) 0 20 \<and>
   nlmsg_type False (store memset0 0 done_datagram) 0 = NLMSG_DONE \<and>
   ReadNetlinkSocket False [RecvData done_datagram] memset0 0 8192 0 7
     = Some (store memset0 0 done_datagram, 0)"
proof -
  have rec: "done_datagram = take (unat (8192 - 0 :: u32)) done_datagram"
    and len: "(20 :: u32) = of_nat (length done_datagram)"
    by (simp_all add: done_datagram_def)
  have ok: "0 \<le> sint (20 :: u32) \<and> NLMSG_OK False (store memset0 0 done_datagram) 0 20 \<and>
      nlmsg_type False (store memset0 0 done_datagram) 0 = NLMSG_DONE"
    by code_simp
  with end_of_dump_not_counted [OF rec refl len, of False memset0 0 "[]" 0 7]
  show ?thesis by simp
qed

text \<open>
  Claim C7. The envelope of every datagram is checked with \<^verbatim>\<open>NLMSG_OK\<close> against the
  number of bytes received before the offset and the count are advanced; an envelope
  that fails the check, or whose type is the protocol error, ends
  \<open>ReadNetlinkSocket\<close> with \<open>-1\<close>. A declared length above the capacity that was left
  fails the check. When \<open>ReadNetlinkSocket\<close> returns a negative value, \<open>DefaultRoute\<close>
  closes the socket and returns failure.
\<close>

theorem invalid_envelope_aborts:
  assumes "received = take (unat (bufsize - msglen :: u32)) d"
    and "mem' = store mem buf received"
    and "readlen = (of_nat (length received) :: u32)"
  shows "(\<not> NLMSG_OK be mem' buf readlen \<or> nlmsg_type be mem' buf = NLMSG_ERROR \<longrightarrow>
            ReadNetlinkSocket_loop be (RecvData d # evs) mem buf bufsize seq pid msglen
              = Some (mem', - 1)) \<and>
         sint (- 1 :: u32) < 0 \<and>
         (unat (bufsize - msglen) < unat (nlmsg_len be mem' buf) \<longrightarrow>
            \<not> NLMSG_OK be mem' buf readlen) \<and>
         (\<forall>env m l. 0 \<le> socket_result env \<and> 0 \<le> send_result env \<and>
              read_response be env = Some (m, l) \<and> sint l < 0 \<longrightarrow>
            DefaultRoute be fresh env
              = Inr \<lparr>returned = False, default_route = None, socket_closed = True\<rparr>)"
proof (intro conjI allI impI)
  assume "\<not> NLMSG_OK be mem' buf readlen \<or> nlmsg_type be mem' buf = NLMSG_ERROR"
  with assms show "ReadNetlinkSocket_loop be (RecvData d # evs) mem buf bufsize seq pid msglen
      = Some (mem', - 1)"
    by (intro loop_abort [where received = received and readlen = readlen]) simp_all
next
  show "sint (- 1 :: u32) < 0" by simp
next
  assume "unat (bufsize - msglen) < unat (nlmsg_len be mem' buf)"
  with assms(1,3) show "\<not> NLMSG_OK be mem' buf readlen"
    by (rule over_capacity)
next
  fix env m l
  assume "0 \<le> socket_result env \<and> 0 \<le> send_result env \<and>
      read_response be env = Some (m, l) \<and> sint l < 0"
  then show "DefaultRoute be fresh env
      = Inr \<lparr>returned = False, default_route = None, socket_closed = True\<rparr>"
    by (intro DefaultRoute_receive_failed [where m = m and l = l]) simp_all
qed

theorem invalid_envelope_aborts_witness:
  "\<not> NLMSG_OK False (msg_after truncated_datagram) 0 36 \<and>
   read_response False (call 28 [truncated_datagram]) = Some (msg_after truncated_datagram, - 1) \<and>
   0 \<le> socket_result (call 28 [truncated_datagram]) \<and>
   0 \<le> send_result (call 28 [truncated_datagram]) \<and>
   DefaultRoute False 0 (call 28 [truncated_datagram])
     = Inr \<lparr>returned = False, default_route = None, socket_closed = True\<rparr> \<and>
   unat (32 - 0 :: u32) < unat (nlmsg_len False (store memset0 0 (take 32 gateway_datagram)) 0) \<and>
   \<not> NLMSG_OK False (store memset0 0 (take 32 gateway_datagram)) 0 32 \<and>
   ReadNetlinkSocket_loop False [RecvData gateway_datagram] memset0 0 32 0 7 0
     = Some (store memset0 0 (take 32 gateway_datagram), - 1)"
proof -
  let ?env = "call 28 [truncated_datagram]" and ?mem = "msg_after truncated_datagram"
  have env: "0 \<le> socket_result ?env" "0 \<le> send_result ?env"
    by (simp_all add: call_def)
  have rec: "truncated_datagram = take (unat (of_nat BUFSIZE - 0 :: u32)) truncated_datagram"
    and len: "(36 :: u32) = of_nat (length truncated_datagram)"
    by (simp_all add: truncated_datagram_def BUFSIZE_def)
  have mem: "?mem = store (request False ?env) 0 truncated_datagram"
    by (simp add: msg_after_def)
  have bad: "\<not> NLMSG_OK False ?mem 0 36"
    by code_simp
  note first = invalid_envelope_aborts [OF rec mem len, of False "[]"
      "nlmsg_seq False (request False ?env) 0" "nlmsg_pid False (request False ?env) 0" 0]
  from first bad have read: "read_response False ?env = Some (?mem, - 1)"
    by (simp add: read_response_def ReadNetlinkSocket_def call_def)
  with first env have fails: "DefaultRoute False 0 ?env
      = Inr \<lparr>returned = False, default_route = None, socket_closed = True\<rparr>"
    by simp
  have rec': "take 32 gateway_datagram = take (unat (32 - 0 :: u32)) gateway_datagram"
    and len': "(32 :: u32) = of_nat (length (take 32 gateway_datagram))"
    by (simp_all add: gateway_datagram_def)
  have over: "unat (32 - 0 :: u32)
      < unat (nlmsg_len False (store memset0 0 (take 32 gateway_datagram)) 0)"
    by code_simp
  note second = invalid_envelope_aborts [OF rec' refl len', of False memset0 0 "[]" 0 7 0]
  from second over have "\<not> NLMSG_OK False (store memset0 0 (take 32 gateway_datagram)) 0 32 \<and>
      ReadNetlinkSocket_loop False [RecvData gateway_datagram] memset0 0 32 0 7 0
        = Some (store memset0 0 (take 32 gateway_datagram), - 1)"
    by blast
  with bad read env fails over show ?thesis
    by simp
qed







end
